theory Spec2Isabelle
  imports Main
begin

section \<open>Python text primitives\<close>

text \<open>
  A docstring is a Python \<open>str\<close>. It is modelled as an Isabelle \<open>string\<close>, a list of
  characters with the code points 0..255; the character classes below are Python's own
  classes restricted to that range.
\<close>

definition in_range :: "char \<Rightarrow> char \<Rightarrow> char \<Rightarrow> bool" where
  "in_range lo hi c \<longleftrightarrow> (of_char lo :: nat) \<le> of_char c \<and> (of_char c :: nat) \<le> of_char hi"

definition isspace :: "char \<Rightarrow> bool" where
  \<comment> \<open>\<open>str.isspace\<close>, also the class \<open>\s\<close> of a \<open>str\<close> pattern\<close>
  "isspace c \<longleftrightarrow> c \<in> set [CHR 0x09, CHR 0x0A, CHR 0x0B, CHR 0x0C, CHR 0x0D, CHR 0x1C,
     CHR 0x1D, CHR 0x1E, CHR 0x1F, CHR 0x20, CHR 0x85, CHR 0xA0]"

definition isdigit :: "char \<Rightarrow> bool" where
  \<comment> \<open>the class \<open>\d\<close>: the decimal digits\<close>
  "isdigit c \<longleftrightarrow> in_range CHR ''0'' CHR ''9'' c"

definition isword :: "char \<Rightarrow> bool" where
  \<comment> \<open>the class \<open>\w\<close>: alphanumeric characters and the underscore\<close>
  "isword c \<longleftrightarrow> in_range CHR ''a'' CHR ''z'' c \<or> in_range CHR ''A'' CHR ''Z'' c
     \<or> in_range CHR ''0'' CHR ''9'' c \<or> c = CHR ''_''
     \<or> c \<in> set [CHR 0xAA, CHR 0xB2, CHR 0xB3, CHR 0xB5, CHR 0xB9, CHR 0xBA, CHR 0xBC, CHR 0xBD, CHR 0xBE]
     \<or> in_range CHR 0xC0 CHR 0xD6 c \<or> in_range CHR 0xD8 CHR 0xF6 c \<or> in_range CHR 0xF8 CHR 0xFF c"

definition lower_char :: "char \<Rightarrow> char" where
  "lower_char c = (if in_range CHR ''A'' CHR ''Z'' c
       \<or> (in_range CHR 0xC0 CHR 0xDE c \<and> c \<noteq> CHR 0xD7)
     then char_of (of_char c + (32::nat)) else c)"

definition lower :: "string \<Rightarrow> string" where
  \<comment> \<open>\<open>str.lower\<close>\<close>
  "lower s = map lower_char s"

fun startswith :: "string \<Rightarrow> string \<Rightarrow> bool" where
  "startswith s [] = True"
| "startswith [] (p # ps) = False"
| "startswith (c # cs) (p # ps) = (c = p \<and> startswith cs ps)"

fun contains :: "string \<Rightarrow> string \<Rightarrow> bool" where
  \<comment> \<open>\<open>sub in s\<close>\<close>
  "contains [] sub = (sub = [])"
| "contains (c # cs) sub = (startswith (c # cs) sub \<or> contains cs sub)"

fun str_index :: "string \<Rightarrow> string \<Rightarrow> nat option" where
  \<comment> \<open>\<open>s.index(sub)\<close>; \<open>None\<close> stands for the ValueError\<close>
  "str_index [] sub = (if sub = [] then Some 0 else None)"
| "str_index (c # cs) sub =
     (if startswith (c # cs) sub then Some 0 else map_option Suc (str_index cs sub))"

definition lstrip :: "string \<Rightarrow> string" where
  "lstrip s = dropWhile isspace s"

definition rstrip :: "string \<Rightarrow> string" where
  "rstrip s = rev (dropWhile isspace (rev s))"

definition strip :: "string \<Rightarrow> string" where
  "strip s = rstrip (lstrip s)"

definition lstrip_chars :: "string \<Rightarrow> string \<Rightarrow> string" where
  \<comment> \<open>\<open>s.lstrip(chars)\<close>\<close>
  "lstrip_chars chars s = dropWhile (\<lambda>c. c \<in> set chars) s"

definition strip_chars :: "string \<Rightarrow> string \<Rightarrow> string" where
  \<comment> \<open>\<open>s.strip(chars)\<close>\<close>
  "strip_chars chars s = rev (dropWhile (\<lambda>c. c \<in> set chars) (rev (lstrip_chars chars s)))"

fun join :: "string \<Rightarrow> string list \<Rightarrow> string" where
  \<comment> \<open>\<open>sep.join(xs)\<close>\<close>
  "join sep [] = []"
| "join sep [x] = x"
| "join sep (x # y # ys) = x @ sep @ join sep (y # ys)"

fun split_char :: "char \<Rightarrow> string \<Rightarrow> string list" where
  \<comment> \<open>\<open>s.split(c)\<close> for a separator of one character\<close>
  "split_char sep [] = [[]]"
| "split_char sep (c # cs) =
     (if c = sep then [] # split_char sep cs
      else (case split_char sep cs of [] \<Rightarrow> [[c]] | x # xs \<Rightarrow> (c # x) # xs))"

definition split1 :: "char \<Rightarrow> string \<Rightarrow> string list" where
  \<comment> \<open>\<open>s.split(c, maxsplit=1)\<close>\<close>
  "split1 sep s = (if sep \<in> set s
     then [takeWhile (\<lambda>c. c \<noteq> sep) s, tl (dropWhile (\<lambda>c. c \<noteq> sep) s)]
     else [s])"

definition is_linebreak :: "char \<Rightarrow> bool" where
  \<comment> \<open>the line boundaries of \<open>str.splitlines\<close>\<close>
  "is_linebreak c \<longleftrightarrow> c \<in> set [CHR 0x0A, CHR 0x0B, CHR 0x0C, CHR 0x0D, CHR 0x1C, CHR 0x1D,
     CHR 0x1E, CHR 0x85]"

fun splitlines_acc :: "bool \<Rightarrow> string \<Rightarrow> string \<Rightarrow> string list" where
  "splitlines_acc keep cur [] = (if cur = [] then [] else [rev cur])"
| "splitlines_acc keep cur (c # cs) =
     (if c = CHR 0x0D \<and> cs \<noteq> [] \<and> hd cs = CHR 0x0A
      then rev ((if keep then [CHR 0x0A, CHR 0x0D] else []) @ cur) # splitlines_acc keep [] (tl cs)
      else if is_linebreak c
      then rev ((if keep then [c] else []) @ cur) # splitlines_acc keep [] cs
      else splitlines_acc keep (c # cur) cs)"

definition splitlines :: "bool \<Rightarrow> string \<Rightarrow> string list" where
  \<comment> \<open>\<open>s.splitlines(keepends)\<close>\<close>
  "splitlines keepends s = splitlines_acc keepends [] s"

section \<open>Regular expressions\<close>

text \<open>
  The patterns of the module are kept as data and run by a backtracking matcher that
  tries the alternatives in the order of Python's \<open>re\<close>: the left branch of \<open>|\<close> first,
  the longest repetition first for a greedy quantifier, the shortest first for a lazy one.
  A match state is the position in the subject and the groups captured so far.
\<close>

datatype cset = CChar char | CRange char char | CSpace | CNonSpace | CDigit | CWord

datatype regex =
    Lit string
  | Dot
  | Cls "cset list"
  | NCls "cset list"
  | Bol
  | Eol
  | Bos
  | Eps
  | Seq regex regex
  | Alt regex regex
  | Star regex
  | Plus regex
  | Opt regex
  | LazyStar regex
  | LazyPlus regex
  | Grp string regex
  | Backref string
  | NotAhead regex

type_synonym groups = "(string \<times> string) list"
type_synonym mstate = "nat \<times> groups"
type_synonym mcont = "mstate \<Rightarrow> mstate option"

fun in_cset :: "cset \<Rightarrow> char \<Rightarrow> bool" where
  "in_cset (CChar d) c = (c = d)"
| "in_cset (CRange lo hi) c = in_range lo hi c"
| "in_cset CSpace c = isspace c"
| "in_cset CNonSpace c = (\<not> isspace c)"
| "in_cset CDigit c = isdigit c"
| "in_cset CWord c = isword c"

definition in_class :: "cset list \<Rightarrow> char \<Rightarrow> bool" where
  "in_class cs c = list_ex (\<lambda>x. in_cset x c) cs"

definition seqs :: "regex list \<Rightarrow> regex" where
  "seqs rs = foldr Seq rs Eps"

definition alts :: "string list \<Rightarrow> regex" where
  \<comment> \<open>an alternation of literal words, \<open>w1|w2|...\<close>\<close>
  "alts ws = foldr (\<lambda>w r. Alt (Lit w) r) (butlast ws) (Lit (last ws))"

definition one_char :: "(char \<Rightarrow> bool) \<Rightarrow> string \<Rightarrow> mstate \<Rightarrow> mcont \<Rightarrow> mstate option" where
  "one_char P s st k = (if fst st < length s \<and> P (s ! fst st) then k (Suc (fst st), snd st) else None)"

primrec star_greedy :: "(mstate \<Rightarrow> mcont \<Rightarrow> mstate option) \<Rightarrow> nat \<Rightarrow> mstate \<Rightarrow> mcont \<Rightarrow> mstate option" where
  "star_greedy f 0 st k = k st"
| "star_greedy f (Suc n) st k =
     (case f st (\<lambda>st'. if fst st < fst st' then star_greedy f n st' k else None) of
        Some r \<Rightarrow> Some r
      | None \<Rightarrow> k st)"

primrec star_lazy :: "(mstate \<Rightarrow> mcont \<Rightarrow> mstate option) \<Rightarrow> nat \<Rightarrow> mstate \<Rightarrow> mcont \<Rightarrow> mstate option" where
  "star_lazy f 0 st k = k st"
| "star_lazy f (Suc n) st k =
     (case k st of
        Some r \<Rightarrow> Some r
      | None \<Rightarrow> f st (\<lambda>st'. if fst st < fst st' then star_lazy f n st' k else None))"

text \<open>
  A repetition runs its body at most once per remaining character: an iteration that
  consumes nothing is cut, and no repeated body of the module's patterns can match the
  empty string. \<open>Bol\<close> and \<open>Eol\<close> are \<open>^\<close> and \<open>$\<close> under \<open>re.MULTILINE\<close>, \<open>Bos\<close> is
  \<open>^\<close> without it.
\<close>

primrec rmatch :: "regex \<Rightarrow> string \<Rightarrow> mstate \<Rightarrow> mcont \<Rightarrow> mstate option" where
  "rmatch (Lit w) s st k =
     (if take (length w) (drop (fst st) s) = w then k (fst st + length w, snd st) else None)"
| "rmatch Dot s st k = one_char (\<lambda>c. c \<noteq> CHR 0x0A) s st k"
| "rmatch (Cls cs) s st k = one_char (in_class cs) s st k"
| "rmatch (NCls cs) s st k = one_char (\<lambda>c. \<not> in_class cs c) s st k"
| "rmatch Bol s st k =
     (if fst st = 0 \<or> (fst st \<le> length s \<and> s ! (fst st - 1) = CHR 0x0A) then k st else None)"
| "rmatch Eol s st k =
     (if fst st = length s \<or> (fst st < length s \<and> s ! fst st = CHR 0x0A) then k st else None)"
| "rmatch Bos s st k = (if fst st = 0 then k st else None)"
| "rmatch Eps s st k = k st"
| "rmatch (Seq a b) s st k = rmatch a s st (\<lambda>st'. rmatch b s st' k)"
| "rmatch (Alt a b) s st k =
     (case rmatch a s st k of Some r \<Rightarrow> Some r | None \<Rightarrow> rmatch b s st k)"
| "rmatch (Star r) s st k = star_greedy (rmatch r s) (length s - fst st) st k"
| "rmatch (Plus r) s st k =
     rmatch r s st (\<lambda>st'. star_greedy (rmatch r s) (length s - fst st') st' k)"
| "rmatch (Opt r) s st k =
     (case rmatch r s st k of Some r \<Rightarrow> Some r | None \<Rightarrow> k st)"
| "rmatch (LazyStar r) s st k = star_lazy (rmatch r s) (length s - fst st) st k"
| "rmatch (LazyPlus r) s st k =
     rmatch r s st (\<lambda>st'. star_lazy (rmatch r s) (length s - fst st') st' k)"
| "rmatch (Grp n r) s st k =
     rmatch r s st (\<lambda>st'. k (fst st', (n, take (fst st' - fst st) (drop (fst st) s)) # snd st'))"
| "rmatch (Backref n) s st k =
     (case map_of (snd st) n of
        None \<Rightarrow> None
      | Some w \<Rightarrow>
          if take (length w) (drop (fst st) s) = w then k (fst st + length w, snd st) else None)"
| "rmatch (NotAhead r) s st k =
     (case rmatch r s st Some of Some _ \<Rightarrow> None | None \<Rightarrow> k st)"

record match =
  m_string :: string
  m_start :: nat
  m_end :: nat
  m_groups :: groups

definition group0 :: "match \<Rightarrow> string" where
  \<comment> \<open>\<open>m[0]\<close>, the text matched\<close>
  "group0 m = take (m_end m - m_start m) (drop (m_start m) (m_string m))"

definition group :: "match \<Rightarrow> string \<Rightarrow> string option" where
  \<comment> \<open>\<open>m[name]\<close>; \<open>None\<close> when the group took no part in the match\<close>
  "group m n = map_of (m_groups m) n"

definition group_str :: "match \<Rightarrow> string \<Rightarrow> string" where
  \<comment> \<open>a group that always takes part in the match\<close>
  "group_str m n = (case group m n of Some v \<Rightarrow> v | None \<Rightarrow> [])"

definition match_at :: "regex \<Rightarrow> string \<Rightarrow> nat \<Rightarrow> match option" where
  \<comment> \<open>the match that starts at position \<open>i\<close>, if there is one\<close>
  "match_at r s i = (case rmatch r s (i, []) Some of
       None \<Rightarrow> None
     | Some (j, g) \<Rightarrow> Some \<lparr>m_string = s, m_start = i, m_end = j, m_groups = g\<rparr>)"

definition re_match :: "regex \<Rightarrow> string \<Rightarrow> match option" where
  \<comment> \<open>\<open>re.match\<close>\<close>
  "re_match r s = match_at r s 0"

function search_from :: "regex \<Rightarrow> string \<Rightarrow> nat \<Rightarrow> match option" where
  "search_from r s i =
     (if length s < i then None
      else (case match_at r s i of Some m \<Rightarrow> Some m | None \<Rightarrow> search_from r s (Suc i)))"
  by pat_completeness auto
termination
  by (relation "measure (\<lambda>(r, s, i). Suc (length s) - i)") auto

definition re_search :: "regex \<Rightarrow> string \<Rightarrow> match option" where
  \<comment> \<open>\<open>re.search\<close>\<close>
  "re_search r s = search_from r s 0"

definition next_pos :: "match \<Rightarrow> nat" where
  \<comment> \<open>where the scan goes on after a match; an empty match moves one character on\<close>
  "next_pos m = (if m_start m < m_end m then m_end m else Suc (m_start m))"

definition skipped :: "match \<Rightarrow> string" where
  \<comment> \<open>the character an empty match steps over\<close>
  "skipped m = (if m_start m < m_end m then [] else take 1 (drop (m_start m) (m_string m)))"

lemma search_from_start: "search_from r s i = Some m \<Longrightarrow> i \<le> m_start m \<and> m_start m \<le> length s"
proof (induction r s i rule: search_from.induct)
  case (1 r s i)
  show ?case
  proof (cases "match_at r s i")
    case None
    with "1.prems" have "\<not> length s < i" and "search_from r s (Suc i) = Some m"
      by (auto split: if_splits)
    with "1.IH" None show ?thesis by fastforce
  next
    case (Some m')
    with "1.prems" have "\<not> length s < i" and "m' = m" by (auto split: if_splits)
    with Some show ?thesis by (auto simp: match_at_def split: option.splits)
  qed
qed

function sub_from :: "regex \<Rightarrow> (match \<Rightarrow> 'st \<Rightarrow> 'e + string \<times> 'st) \<Rightarrow> string \<Rightarrow> nat \<Rightarrow> 'st
    \<Rightarrow> 'e + string \<times> 'st" where
  "sub_from r f s i st =
     (case search_from r s i of
        None \<Rightarrow> Inr (drop i s, st)
      | Some m \<Rightarrow>
          (case f m st of
             Inl e \<Rightarrow> Inl e
           | Inr (rep, st') \<Rightarrow>
               (case sub_from r f s (next_pos m) st' of
                  Inl e \<Rightarrow> Inl e
                | Inr (rest, st'') \<Rightarrow>
                    Inr (take (m_start m - i) (drop i s) @ rep @ skipped m @ rest, st''))))"
  by pat_completeness auto
termination
proof (relation "measure (\<lambda>(r, f, s, i, st). Suc (length s) - i)")
  show "wf (measure (\<lambda>(r, f, s, i, st). Suc (length s) - i))" by simp
next
  fix r :: regex and f :: "match \<Rightarrow> 'st \<Rightarrow> 'e + string \<times> 'st" and s i st m x rep st'
  assume "search_from r s i = Some m"
  then have "i \<le> m_start m" "m_start m \<le> length s" using search_from_start by blast+
  then show "((r, f, s, next_pos m, st'), (r, f, s, i, st))
      \<in> measure (\<lambda>(r, f, s, i, st). Suc (length s) - i)"
    by (auto simp: next_pos_def)
qed

definition re_sub_st :: "regex \<Rightarrow> (match \<Rightarrow> 'st \<Rightarrow> 'e + string \<times> 'st) \<Rightarrow> string \<Rightarrow> 'st
    \<Rightarrow> 'e + string \<times> 'st" where
  \<comment> \<open>\<open>re.sub\<close> with a callback that reads and writes variables of the enclosing call and
      may raise\<close>
  "re_sub_st r f s st = sub_from r f s 0 st"

definition re_sub :: "regex \<Rightarrow> (match \<Rightarrow> string) \<Rightarrow> string \<Rightarrow> string" where
  \<comment> \<open>\<open>re.sub\<close> with a pure callback\<close>
  "re_sub r f s = (case re_sub_st r (\<lambda>m (u::unit). (Inr (f m, u) :: unit + string \<times> unit)) s () of
       Inr (out, _) \<Rightarrow> out
     | Inl _ \<Rightarrow> s)"

function split_from :: "regex \<Rightarrow> string list \<Rightarrow> string \<Rightarrow> nat \<Rightarrow> nat option \<Rightarrow> string list" where
  "split_from r names s i maxsplit =
     (if maxsplit = Some 0 then [drop i s]
      else (case search_from r s i of
        None \<Rightarrow> [drop i s]
      | Some m \<Rightarrow>
          take (m_start m - i) (drop i s) # map (group_str m) names
            @ (case split_from r names s (next_pos m) (map_option (\<lambda>n. n - 1) maxsplit) of
                 [] \<Rightarrow> []
               | x # xs \<Rightarrow> (skipped m @ x) # xs)))"
  by pat_completeness auto
termination
proof (relation "measure (\<lambda>(r, names, s, i, maxsplit). Suc (length s) - i)")
  show "wf (measure (\<lambda>(r, names, s, i, maxsplit). Suc (length s) - i))" by simp
next
  fix r :: regex and names :: "string list" and s i and maxsplit :: "nat option" and m
  assume "search_from r s i = Some m"
  then have "i \<le> m_start m" "m_start m \<le> length s" using search_from_start by blast+
  then show "((r, names, s, next_pos m, map_option (\<lambda>n. n - 1) maxsplit), (r, names, s, i, maxsplit))
      \<in> measure (\<lambda>(r, names, s, i, maxsplit). Suc (length s) - i)"
    by (auto simp: next_pos_def)
qed

definition re_split :: "regex \<Rightarrow> string list \<Rightarrow> string \<Rightarrow> nat option \<Rightarrow> string list" where
  \<comment> \<open>\<open>re.split(pattern, s, maxsplit)\<close>: the pieces between the matches, each match giving
      also the text of the pattern's capturing groups, listed in \<open>names\<close>;
      \<open>None\<close> is no limit on the number of splits\<close>
  "re_split r names s maxsplit = split_from r names s 0 maxsplit"

text \<open>The scans are unfolded only where a proof asks for it.\<close>

declare search_from.simps [simp del] sub_from.simps [simp del] split_from.simps [simp del]

lemma search_from_match:
  "search_from r s i = Some m \<Longrightarrow> match_at r s (m_start m) = Some m"
proof (induction r s i rule: search_from.induct)
  case (1 r s i)
  show ?case
  proof (cases "match_at r s i")
    case None
    with "1.prems" have "\<not> length s < i" and "search_from r s (Suc i) = Some m"
      by (auto simp: search_from.simps[of r s i] split: if_splits)
    with "1.IH" None show ?thesis by simp
  next
    case (Some m')
    with "1.prems" have "m' = m" by (auto simp: search_from.simps[of r s i] split: if_splits)
    moreover from Some have "m_start m' = i" by (auto simp: match_at_def split: option.splits)
    ultimately show ?thesis using Some by simp
  qed
qed

lemma match_at_string: "match_at r s i = Some m \<Longrightarrow> m_string m = s \<and> m_start m = i"
  by (auto simp: match_at_def split: option.splits)

lemma splice_match:
  assumes "m_string m = s" and "i \<le> m_start m" and "m_start m \<le> length s"
  shows "take (m_start m - i) (drop i s) @ group0 m @ skipped m @ drop (next_pos m) s = drop i s"
proof -
  define xs where "xs = drop (m_start m) s"
  have pre: "take (m_start m - i) (drop i s) @ xs = drop i s"
    unfolding xs_def using assms(2) by (metis append_take_drop_id drop_drop le_add_diff_inverse2)
  have "group0 m @ skipped m @ drop (next_pos m) s = xs"
  proof (cases "m_start m < m_end m")
    case True
    then have "drop (m_end m) s = drop (m_end m - m_start m) xs"
      unfolding xs_def by simp
    with True have "group0 m @ skipped m @ drop (next_pos m) s
        = take (m_end m - m_start m) xs @ drop (m_end m - m_start m) xs"
      using assms(1) by (simp add: group0_def skipped_def next_pos_def xs_def)
    then show ?thesis by (simp only: append_take_drop_id)
  next
    case False
    have "drop (Suc (m_start m)) s = drop 1 xs" unfolding xs_def by simp
    with False have "group0 m @ skipped m @ drop (next_pos m) s = take 1 xs @ drop 1 xs"
      using assms(1) by (simp add: group0_def skipped_def next_pos_def xs_def)
    then show ?thesis by (simp only: append_take_drop_id)
  qed
  with pre show ?thesis by simp
qed

lemma sub_from_unchanged:
  assumes "\<And>m st. P st \<Longrightarrow> match_at r s (m_start m) = Some m
      \<Longrightarrow> \<exists>st'. f m st = Inr (group0 m, st') \<and> P st'"
    and "P st"
  shows "\<exists>st'. sub_from r f s i st = Inr (drop i s, st') \<and> P st'"
  using assms
proof (induction r f s i st rule: sub_from.induct)
  case (1 r f s i st)
  note step = "1.prems"(1)
  show ?case
  proof (cases "search_from r s i")
    case None
    with "1.prems"(2) show ?thesis by (simp add: sub_from.simps)
  next
    case (Some m)
    from search_from_match[OF Some] have ma: "match_at r s (m_start m) = Some m" .
    from step[OF "1.prems"(2) ma] obtain st1 where st1: "f m st = Inr (group0 m, st1)" "P st1" by blast
    from "1.IH"[OF Some st1(1) refl step st1(2)] obtain st2 where
      st2: "sub_from r f s (next_pos m) st1 = Inr (drop (next_pos m) s, st2)" "P st2" by blast
    from search_from_start[OF Some] match_at_string[OF ma]
    have "take (m_start m - i) (drop i s) @ group0 m @ skipped m @ drop (next_pos m) s = drop i s"
      by (intro splice_match) simp_all
    with Some st1 st2 show ?thesis by (simp add: sub_from.simps)
  qed
qed

lemma sub_from_invariant:
  assumes "\<And>m st rep st'. P st \<Longrightarrow> match_at r s (m_start m) = Some m
      \<Longrightarrow> f m st = Inr (rep, st') \<Longrightarrow> P st'"
    and "P st" and "sub_from r f s i st = Inr (out, st')"
  shows "P st'"
  using assms
proof (induction r f s i st arbitrary: out rule: sub_from.induct)
  case (1 r f s i st)
  note step = "1.prems"(1)
  show ?case
  proof (cases "search_from r s i")
    case None
    with "1.prems"(2,3) show ?thesis by (simp add: sub_from.simps)
  next
    case (Some m)
    from search_from_match[OF Some] have ma: "match_at r s (m_start m) = Some m" .
    from "1.prems"(3) Some obtain rep st1 where f: "f m st = Inr (rep, st1)"
      by (auto simp: sub_from.simps[of r f s i st] split: sum.splits)
    from step[OF "1.prems"(2) ma f] have p1: "P st1" .
    from "1.prems"(3) Some f obtain rest where "sub_from r f s (next_pos m) st1 = Inr (rest, st')"
      by (auto simp: sub_from.simps[of r f s i st] split: sum.splits)
    from "1.IH"[OF Some f refl step p1 this] show ?thesis .
  qed
qed

lemma search_from_none:
  "(\<And>q. i \<le> q \<Longrightarrow> match_at r s q = None) \<Longrightarrow> search_from r s i = None"
proof (induction r s i rule: search_from.induct)
  case (1 r s i)
  show ?case
  proof (cases "length s < i")
    case True
    then show ?thesis by (simp add: search_from.simps)
  next
    case False
    have m: "match_at r s i = None" using "1.prems"[of i] by simp
    from "1.IH"[OF False m] "1.prems" have "search_from r s (Suc i) = None" by simp
    with m False show ?thesis by (simp add: search_from.simps[of r s i])
  qed
qed

lemma search_from_first:
  assumes "match_at r s p = Some m" and "p \<le> length s"
    and "i \<le> p" and "\<And>q. i \<le> q \<Longrightarrow> q < p \<Longrightarrow> match_at r s q = None"
  shows "search_from r s i = Some m"
  using assms(3,4)
proof (induction "p - i" arbitrary: i)
  case 0
  then have "i = p" by simp
  with assms(1,2) show ?case by (simp add: search_from.simps[of r s p])
next
  case (Suc n)
  then have lt: "i < p" by simp
  with Suc.prems have m: "match_at r s i = None" by simp
  from assms(2) lt have l: "\<not> length s < i" by simp
  have "search_from r s (Suc i) = Some m"
    using Suc.hyps(1)[of "Suc i"] Suc.hyps(2) Suc.prems lt by simp
  with m l show ?case by (simp add: search_from.simps[of r s i])
qed

lemma sub_from_total:
  assumes "\<And>m st. \<exists>rep st'. f m st = Inr (rep, st')"
  shows "\<exists>out st'. sub_from r f s i st = Inr (out, st')"
  using assms
proof (induction r f s i st rule: sub_from.induct)
  case (1 r f s i st)
  note tot = "1.prems"
  show ?case
  proof (cases "search_from r s i")
    case None
    then show ?thesis by (simp add: sub_from.simps)
  next
    case (Some m)
    from tot obtain rep st1 where f: "f m st = Inr (rep, st1)" by blast
    from "1.IH"[OF Some f refl tot] obtain rest st2 where
      "sub_from r f s (next_pos m) st1 = Inr (rest, st2)" by blast
    with Some f show ?thesis by (simp add: sub_from.simps[of r f s i st])
  qed
qed

section \<open>textwrap, inspect, int and base64\<close>

definition indent_with :: "(string \<Rightarrow> bool) \<Rightarrow> string \<Rightarrow> string \<Rightarrow> string" where
  \<comment> \<open>\<open>textwrap.indent(text, prefix, predicate)\<close>\<close>
  "indent_with predicate text prefix =
     concat (map (\<lambda>line. if predicate line then prefix @ line else line) (splitlines True text))"

definition indent :: "string \<Rightarrow> string \<Rightarrow> string" where
  \<comment> \<open>\<open>textwrap.indent(text, prefix)\<close>: lines of whitespace only get no prefix\<close>
  "indent text prefix = indent_with (\<lambda>line. strip line \<noteq> []) text prefix"

definition is_blank_tab :: "char \<Rightarrow> bool" where
  "is_blank_tab c \<longleftrightarrow> c = CHR '' '' \<or> c = CHR 0x09"

fun common_prefix :: "string \<Rightarrow> string \<Rightarrow> string" where
  "common_prefix (x # xs) (y # ys) = (if x = y then x # common_prefix xs ys else [])"
| "common_prefix xs ys = []"

fun dedent_margin :: "string option \<Rightarrow> string list \<Rightarrow> string option" where
  "dedent_margin margin [] = margin"
| "dedent_margin None (ind # inds) = dedent_margin (Some ind) inds"
| "dedent_margin (Some margin) (ind # inds) =
     (if startswith ind margin then dedent_margin (Some margin) inds
      else if startswith margin ind then dedent_margin (Some ind) inds
      else dedent_margin (Some (common_prefix margin ind)) inds)"

definition dedent :: "string \<Rightarrow> string" where
  \<comment> \<open>\<open>textwrap.dedent\<close>: lines of blanks and tabs only are emptied, then the longest
      common leading run of blanks and tabs of the other lines is cut from each line\<close>
  "dedent text =
     (let lines = map (\<lambda>l. if list_all is_blank_tab l then [] else l) (split_char CHR 0x0A text);
          indents = map (takeWhile is_blank_tab) (filter (\<lambda>l. l \<noteq> []) lines)
      in case dedent_margin None indents of
           None \<Rightarrow> join [CHR 0x0A] lines
         | Some margin \<Rightarrow>
             if margin = [] then join [CHR 0x0A] lines
             else join [CHR 0x0A]
               (map (\<lambda>l. if startswith l margin then drop (length margin) l else l) lines))"

fun expandtabs_from :: "nat \<Rightarrow> string \<Rightarrow> string" where
  "expandtabs_from col [] = []"
| "expandtabs_from col (c # cs) =
     (if c = CHR 0x09 then replicate (8 - col mod 8) CHR '' '' @ expandtabs_from (col + (8 - col mod 8)) cs
      else if c = CHR 0x0A \<or> c = CHR 0x0D then c # expandtabs_from 0 cs
      else c # expandtabs_from (Suc col) cs)"

definition expandtabs :: "string \<Rightarrow> string" where
  "expandtabs s = expandtabs_from 0 s"

fun cleandoc_margin :: "nat option \<Rightarrow> string list \<Rightarrow> nat option" where
  "cleandoc_margin margin [] = margin"
| "cleandoc_margin margin (line # lines) =
     (let content = length (lstrip line)
      in if content \<noteq> 0
         then cleandoc_margin
           (Some (case margin of None \<Rightarrow> length line - content
                  | Some k \<Rightarrow> min k (length line - content))) lines
         else cleandoc_margin margin lines)"

definition cleandoc :: "string \<Rightarrow> string" where
  \<comment> \<open>\<open>inspect.cleandoc\<close>\<close>
  "cleandoc doc =
     (let lines = split_char CHR 0x0A (expandtabs doc);
          margin = cleandoc_margin None (tl lines);
          lines1 = lstrip (hd lines)
            # (case margin of None \<Rightarrow> tl lines | Some k \<Rightarrow> map (drop k) (tl lines));
          lines2 = rev (dropWhile (\<lambda>l. l = []) (rev lines1));
          lines3 = dropWhile (\<lambda>l. l = []) lines2
      in join [CHR 0x0A] lines3)"

fun digits_ok :: "bool \<Rightarrow> string \<Rightarrow> bool" where
  \<comment> \<open>digits with single underscores between them; the flag says a digit came just before\<close>
  "digits_ok prev [] = prev"
| "digits_ok prev (c # cs) =
     (if isdigit c then digits_ok True cs
      else if c = CHR ''_'' \<and> prev then cs \<noteq> [] \<and> isdigit (hd cs) \<and> digits_ok False cs
      else False)"

definition digits_value :: "string \<Rightarrow> int" where
  "digits_value ds =
     foldl (\<lambda>acc c. 10 * acc + (int (of_char c) - 48)) 0 (filter (\<lambda>c. c \<noteq> CHR ''_'') ds)"

definition int_space :: "char \<Rightarrow> bool" where
  \<comment> \<open>the characters \<open>int\<close> skips around a number: the ASCII white space, and the white
      space above U+007F, which it first turns into blanks\<close>
  "int_space c \<longleftrightarrow> c \<in> set [CHR 0x09, CHR 0x0A, CHR 0x0B, CHR 0x0C, CHR 0x0D, CHR 0x20,
     CHR 0x85, CHR 0xA0]"

definition py_int :: "string \<Rightarrow> int option" where
  \<comment> \<open>\<open>int(s)\<close>; \<open>None\<close> stands for the ValueError\<close>
  "py_int s =
     (let t = rev (dropWhile int_space (rev (dropWhile int_space s)));
          neg = (t \<noteq> [] \<and> hd t = CHR ''-'');
          ds = (if t \<noteq> [] \<and> (hd t = CHR ''-'' \<or> hd t = CHR ''+'') then tl t else t)
      in if digits_ok False ds then Some (if neg then - digits_value ds else digits_value ds)
         else None)"

definition slice_to :: "int \<Rightarrow> 'a list \<Rightarrow> 'a list" where
  \<comment> \<open>\<open>xs[:i]\<close>\<close>
  "slice_to i xs = (if 0 \<le> i then take (nat i) xs else take (length xs - nat (- i)) xs)"

definition slice_from :: "int \<Rightarrow> 'a list \<Rightarrow> 'a list" where
  \<comment> \<open>\<open>xs[i:]\<close>\<close>
  "slice_from i xs = (if 0 \<le> i then drop (nat i) xs else drop (length xs - nat (- i)) xs)"

definition b64_alphabet :: string where
  "b64_alphabet = ''ABCDEFGHIJKLMNOPQRSTUVWXYZabcdefghijklmnopqrstuvwxyz0123456789+/''"

definition b64_char :: "nat \<Rightarrow> char" where
  "b64_char n = b64_alphabet ! (n mod 64)"

fun b64encode :: "string \<Rightarrow> string" where
  \<comment> \<open>\<open>base64.b64encode(data).decode()\<close>: three bytes give four characters of six bits\<close>
  "b64encode [] = []"
| "b64encode [a] =
     (let x = (of_char a :: nat)
      in [b64_char (x div 4), b64_char ((x mod 4) * 16), CHR ''='', CHR ''=''])"
| "b64encode [a, b] =
     (let x = (of_char a :: nat); y = (of_char b :: nat)
      in [b64_char (x div 4), b64_char ((x mod 4) * 16 + y div 16), b64_char ((y mod 16) * 4),
          CHR ''=''])"
| "b64encode (a # b # c # rest) =
     (let x = (of_char a :: nat); y = (of_char b :: nat); z = (of_char c :: nat)
      in [b64_char (x div 4), b64_char ((x mod 4) * 16 + y div 16),
          b64_char ((y mod 16) * 4 + z div 64), b64_char (z mod 64)]
         @ b64encode rest)"

function str_nat :: "nat \<Rightarrow> string" where
  \<comment> \<open>\<open>str(n)\<close> of a natural number\<close>
  "str_nat n = (if n < 10 then [char_of (48 + n)] else str_nat (n div 10) @ [char_of (48 + n mod 10)])"
  by pat_completeness auto
termination
  by (relation "measure (\<lambda>n. n)") auto

section \<open>Exceptions, warnings and the world outside the module\<close>

text \<open>
  A raise is a value: a function that can raise returns \<open>exc + 'a\<close>, with \<open>Inl\<close> the
  exception. \<open>KeyboardInterrupt\<close>, \<open>SystemExit\<close> and \<open>GeneratorExit\<close> are the built-in
  classes outside \<open>Exception\<close>; the others stand for classes inside it.
  \<open>RuntimeError doc src fmt cause\<close> is the error \<open>convert\<close> raises: its message is
  built from the three values, and \<open>cause\<close> is the exception it was raised from.
\<close>

datatype exc =
    KeyboardInterrupt
  | SystemExit
  | GeneratorExit
  | AssertionError
  | IndexError
  | ValueError
  | OSError
  | RecursionError
  | OtherException
  | RuntimeError string "string option" string exc

definition is_Exception :: "exc \<Rightarrow> bool" where
  \<comment> \<open>\<open>isinstance(e, Exception)\<close>\<close>
  "is_Exception e \<longleftrightarrow> e \<noteq> KeyboardInterrupt \<and> e \<noteq> SystemExit \<and> e \<noteq> GeneratorExit"

definition AnyException :: "exc \<Rightarrow> bool" where
  \<comment> \<open>\<open>isinstance(e, (SystemExit, GeneratorExit, Exception))\<close>\<close>
  "AnyException e \<longleftrightarrow> e = SystemExit \<or> e = GeneratorExit \<or> is_Exception e"

datatype warning = CannotInclude string | IncludeOptionsFailed string

text \<open>
  What the module reads from outside: files, through \<open>pathlib\<close>; the MIME type guessed
  for a path; the environment variable \<open>PDOC_EMBED_IMAGES\<close>; and the depth of nested
  includes the interpreter's stack admits before it raises \<open>RecursionError\<close>. A path is
  a string; \<open>path_join loc rel\<close> is \<open>loc.parent / rel\<close>.
\<close>

record world =
  path_join :: "string \<Rightarrow> string \<Rightarrow> string"
  read_bytes :: "string \<Rightarrow> exc + string"
  read_text :: "string \<Rightarrow> exc + string"
  guess_type :: "string \<Rightarrow> string option"
  PDOC_EMBED_IMAGES :: "string option"
  include_depth :: nat

definition re_sub_exc :: "regex \<Rightarrow> (match \<Rightarrow> exc + string) \<Rightarrow> string \<Rightarrow> exc + string" where
  \<comment> \<open>\<open>re.sub\<close> with a callback that may raise\<close>
  "re_sub_exc r f s =
     (case re_sub_st r (\<lambda>m (u::unit). case f m of Inl e \<Rightarrow> Inl e | Inr x \<Rightarrow> Inr (x, u)) s () of
        Inl e \<Rightarrow> Inl e
      | Inr (out, _) \<Rightarrow> Inr out)"

section \<open>embed_images\<close>

definition image_markdown_re :: regex where
  \<comment> \<open>\<open>(?P<before>!\[\s*.*?\s*]\(\s*)(?P<href>.+?)(?P<after>\s*\))\<close>\<close>
  "image_markdown_re = seqs [
     Grp ''before'' (seqs [Lit ''!['', Star (Cls [CSpace]), LazyStar Dot, Star (Cls [CSpace]),
       Lit ''](''  , Star (Cls [CSpace])]),
     Grp ''href'' (LazyPlus Dot),
     Grp ''after'' (seqs [Star (Cls [CSpace]), Lit '')''])]"

definition image_src_re :: regex where
  \<comment> \<open>\<open>(?P<before>src=['"])(?P<href>.+?)(?P<after>['"])\<close>\<close>
  "image_src_re = seqs [
     Grp ''before'' (seqs [Lit ''src='', Cls [CChar (CHR 0x27), CChar (CHR 0x22)]]),
     Grp ''href'' (LazyPlus Dot),
     Grp ''after'' (Cls [CChar (CHR 0x27), CChar (CHR 0x22)])]"

definition local_image_to_data_uri :: "world \<Rightarrow> string \<Rightarrow> string \<Rightarrow> exc + string" where
  "local_image_to_data_uri w source_file href =
     (let image_path = path_join w source_file href
      in case read_bytes w image_path of
           Inl e \<Rightarrow> Inl e
         | Inr image_data \<Rightarrow>
             let image_mime = (case guess_type w image_path of None \<Rightarrow> ''None'' | Some t \<Rightarrow> t);
                 image_data_b64 = b64encode image_data
             in Inr (''data:'' @ image_mime @ '';base64,'' @ image_data_b64))"

definition embed_local_image :: "world \<Rightarrow> string \<Rightarrow> match \<Rightarrow> exc + string" where
  "embed_local_image w source_file m =
     (case local_image_to_data_uri w source_file (group_str m ''href'') of
        Inl e \<Rightarrow> if is_Exception e then Inr (group0 m) else Inl e
      | Inr href \<Rightarrow> Inr (group_str m ''before'' @ href @ group_str m ''after''))"

definition embed_images :: "world \<Rightarrow> string \<Rightarrow> string \<Rightarrow> exc + string" where
  "embed_images w docstring source_file =
     (case re_sub_exc image_markdown_re (embed_local_image w source_file) docstring of
        Inl e \<Rightarrow> Inl e
      | Inr docstring1 \<Rightarrow> re_sub_exc image_src_re (embed_local_image w source_file) docstring1)"

section \<open>The indented-list splitter\<close>

fun indented_list_loop :: "string list \<Rightarrow> string list \<Rightarrow> exc + string list" where
  "indented_list_loop ret [] = Inr ret"
| "indented_list_loop ret (line # lines) =
     (let empty = (strip line = []); indented = startswith line '' ''
      in if \<not> (empty \<or> indented) then indented_list_loop (ret @ [line]) lines
         else if ret = [] then Inl IndexError
         else indented_list_loop (butlast ret @ [last ret @ line]) lines)"

definition indented_list :: "string \<Rightarrow> exc + string list" where
  "indented_list contents =
     (if startswith contents '' '' then Inl AssertionError
      else if startswith contents [CHR 0x0A] then Inl AssertionError
      else (case indented_list_loop [] (splitlines True contents) of
              Inl e \<Rightarrow> Inl e
            | Inr ret \<Rightarrow> Inr (map cleandoc ret)))"

section \<open>Google\<close>

definition google_re :: regex where
  \<comment> \<open>\<open>^(?P<name>[A-Z][A-Z a-z]+):\n(?P<contents>(\n|[ \t]+.+)+)$\<close>, verbose and multiline\<close>
  "google_re = seqs [Bol,
     Grp ''name'' (Seq (Cls [CRange CHR ''A'' CHR ''Z''])
       (Plus (Cls [CRange CHR ''A'' CHR ''Z'', CChar CHR '' '', CRange CHR ''a'' CHR ''z'']))),
     Lit [CHR '':'', CHR 0x0A],
     Grp ''contents'' (Plus (Grp ''3'' (Alt (Lit [CHR 0x0A])
       (Seq (Plus (Cls [CChar CHR '' '', CChar (CHR 0x09)])) (Plus Dot))))),
     Eol]"

definition GOOGLE_LIST_SECTIONS :: "string list" where
  "GOOGLE_LIST_SECTIONS = [''Args'', ''Raises'', ''Attributes'']"

definition GOOGLE_LIST_SECTION_ALIASES :: "string \<rightharpoonup> string" where
  "GOOGLE_LIST_SECTION_ALIASES =
     [''Parameters'' \<mapsto> ''Args'', ''Params'' \<mapsto> ''Args'', ''Arguments'' \<mapsto> ''Args'']"

definition first_colon_re :: regex where
  \<comment> \<open>\<open>^(.+?:)\<close>\<close>
  "first_colon_re = Seq Bos (Grp ''1'' (Seq (LazyPlus Dot) (Lit '':'')))"

definition google_item :: "string \<Rightarrow> string" where
  \<comment> \<open>the body of the loop over the items of a list section\<close>
  "google_item item =
     (case re_split first_colon_re [''1''] item (Some 1) of
        [_, attr, desc] \<Rightarrow> '' - **'' @ attr @ ''** '' @ drop 3 (indent desc ''   '')
      | _ \<Rightarrow> '' - '' @ drop 3 (indent item ''   ''))
     @ [CHR 0x0A]"

definition google_section :: "match \<Rightarrow> exc + string" where
  "google_section m =
     (let name0 = group_str m ''name'';
          contents0 = lstrip (dedent (group_str m ''contents''));
          name1 = (case GOOGLE_LIST_SECTION_ALIASES name0 of Some a \<Rightarrow> a | None \<Rightarrow> name0);
          name2 = (if name1 = ''Args'' then ''Arguments'' else name1)
      in if name1 \<in> set GOOGLE_LIST_SECTIONS
         then (case indented_list contents0 of
                 Inl e \<Rightarrow> Inl e
               | Inr items \<Rightarrow>
                   Inr ([CHR 0x0A] @ ''###### '' @ name2 @ '':'' @ [CHR 0x0A]
                        @ concat (map google_item items) @ [CHR 0x0A]))
         else Inr ([CHR 0x0A] @ ''###### '' @ name2 @ '':'' @ [CHR 0x0A]
                   @ indent_with (\<lambda>line. True) contents0 ''> '' @ [CHR 0x0A]))"

definition google :: "string \<Rightarrow> exc + string" where
  "google docstring = re_sub_exc google_re google_section docstring"

section \<open>NumPy\<close>

definition numpy_re :: regex where
  \<comment> \<open>\<open>^([A-Z][A-Za-z ]+)\n---+\n+\<close>, verbose and multiline\<close>
  "numpy_re = seqs [Bol,
     Grp ''1'' (Seq (Cls [CRange CHR ''A'' CHR ''Z''])
       (Plus (Cls [CRange CHR ''A'' CHR ''Z'', CRange CHR ''a'' CHR ''z'', CChar CHR '' '']))),
     Lit [CHR 0x0A], Lit ''--'', Plus (Lit ''-''), Plus (Lit [CHR 0x0A])]"

definition tail_re :: regex where
  \<comment> \<open>\<open>\n(?![ \n])\<close>\<close>
  "tail_re = Seq (Lit [CHR 0x0A]) (NotAhead (Cls [CChar CHR '' '', CChar (CHR 0x0A)]))"

definition numpy_split_tail :: "string \<Rightarrow> exc + string \<times> string" where
  \<comment> \<open>the first statement of the loop body of \<open>numpy\<close>: the content kept and the tail\<close>
  "numpy_split_tail content =
     (if startswith content '' '' \<and> re_search tail_re content \<noteq> None
      then (case re_split tail_re [] content (Some 1) of
              [content1, tail] \<Rightarrow> Inr (content1, tail)
            | _ \<Rightarrow> Inl ValueError)
      else Inr (content, []))"

definition numpy_item_re :: regex where
  \<comment> \<open>\<open>^(.+):(.+)([\s\S]*)\<close>\<close>
  "numpy_item_re = seqs [Bos, Grp ''1'' (Plus Dot), Lit '':'', Grp ''2'' (Plus Dot),
     Grp ''3'' (Star (Cls [CSpace, CNonSpace]))]"

definition numpy_parameter :: "string \<Rightarrow> string" where
  \<comment> \<open>the body of the loop of \<open>_numpy_parameters\<close>\<close>
  "numpy_parameter item =
     (case re_match numpy_item_re item of
        Some m \<Rightarrow>
          '' - **'' @ strip (group_str m ''1'') @ ''** ('' @ strip (group_str m ''2'') @ ''):''
            @ [CHR 0x0A] @ indent (strip (group_str m ''3'')) ''   '' @ [CHR 0x0A]
      | None \<Rightarrow>
          (let (name, desc) =
                 (if CHR 0x0A \<in> set item
                  then (case split1 (CHR 0x0A) item of
                          [name, desc] \<Rightarrow> (strip name, strip desc)
                        | _ \<Rightarrow> (strip item, []))
                  else (strip item, []))
           in if desc \<noteq> [] then '' - **'' @ name @ ''**: '' @ desc @ [CHR 0x0A]
              else '' - **'' @ name @ ''**'' @ [CHR 0x0A]))"

definition numpy_parameters :: "string \<Rightarrow> exc + string" where
  "numpy_parameters content =
     (case indented_list content of
        Inl e \<Rightarrow> Inl e
      | Inr items \<Rightarrow> Inr (concat (map numpy_parameter items) @ [CHR 0x0A]))"

definition numpy_seealso_item :: "string \<Rightarrow> string" where
  \<comment> \<open>the body of the loop of \<open>_numpy_seealso\<close>\<close>
  "numpy_seealso_item item =
     (let (funcstr, desc) =
            (if CHR '':'' \<in> set item
             then (case split1 CHR '':'' item of
                     [funcstr, desc] \<Rightarrow> (funcstr, '': '' @ desc)
                   | _ \<Rightarrow> (item, []))
             else (item, []));
          funclist = map strip (split_char CHR '' '' funcstr);
          funcs = join '', '' (map (\<lambda>f. ''`'' @ f @ ''`'') (filter (\<lambda>f. f \<noteq> []) funclist))
      in funcs @ desc @ ''  '' @ [CHR 0x0A])"

definition numpy_seealso :: "string \<Rightarrow> exc + string" where
  "numpy_seealso content =
     (case indented_list content of
        Inl e \<Rightarrow> Inl e
      | Inr items \<Rightarrow> Inr (concat (map numpy_seealso_item items)))"

definition numpy_parameter_headings :: "string list" where
  "numpy_parameter_headings = [''Parameters'', ''Returns'', ''Yields'', ''Receives'',
     ''Other Parameters'', ''Raises'', ''Warns'', ''Attributes'']"

definition numpy_render :: "string \<Rightarrow> string \<Rightarrow> exc + string" where
  \<comment> \<open>the \<open>if\<close> on the heading in the loop body of \<open>numpy\<close>: the rendered section\<close>
  "numpy_render heading content =
     (if heading \<in> set numpy_parameter_headings
      then (case numpy_parameters content of
              Inl e \<Rightarrow> Inl e
            | Inr p \<Rightarrow> Inr (''###### '' @ heading @ [CHR 0x0A] @ p))
      else if heading = ''See Also''
      then (case numpy_seealso content of
              Inl e \<Rightarrow> Inl e
            | Inr p \<Rightarrow> Inr (''###### '' @ heading @ [CHR 0x0A] @ p))
      else Inr (''###### '' @ heading @ [CHR 0x0A] @ content))"

definition numpy_section :: "string \<Rightarrow> string \<Rightarrow> exc + string" where
  \<comment> \<open>the loop body of \<open>numpy\<close>: what one (heading, content) pair adds to \<open>contents\<close>\<close>
  "numpy_section heading content =
     (case numpy_split_tail content of
        Inl e \<Rightarrow> Inl e
      | Inr (content1, tail) \<Rightarrow>
          (case numpy_render heading (dedent content1) of
             Inl e \<Rightarrow> Inl e
           | Inr rendered \<Rightarrow> Inr (rendered @ tail)))"

fun numpy_loop :: "string \<Rightarrow> string list \<Rightarrow> exc + string" where
  \<comment> \<open>the loop over \<open>zip(sections[1::2], sections[2::2])\<close>\<close>
  "numpy_loop contents (heading # content # rest) =
     (case numpy_section heading content of
        Inl e \<Rightarrow> Inl e
      | Inr piece \<Rightarrow> numpy_loop (contents @ piece) rest)"
| "numpy_loop contents rest = Inr contents"

definition numpy :: "string \<Rightarrow> exc + string" where
  "numpy docstring =
     (let sections = re_split numpy_re [''1''] docstring None
      in numpy_loop (hd sections) (tl sections))"

section \<open>reStructuredText: links and footnotes\<close>

definition embedded_uri_re :: regex where
  \<comment> \<open>\<open>`(?P<text>[^`]+)<(?P<url>.+?)>`_\<close>\<close>
  "embedded_uri_re = seqs [Lit ''`'', Grp ''text'' (Plus (NCls [CChar CHR ''`''])), Lit ''<'',
     Grp ''url'' (LazyPlus Dot), Lit ''>`_'']"

definition link_target_re :: regex where
  \<comment> \<open>\<open>^\s*..\s+_(?P<id>[^\n:]+):\s*(?P<url>http\S+)\<close>, multiline\<close>
  "link_target_re = seqs [Bol, Star (Cls [CSpace]), Dot, Dot, Plus (Cls [CSpace]), Lit ''_'',
     Grp ''id'' (Plus (NCls [CChar (CHR 0x0A), CChar CHR '':''])), Lit '':'', Star (Cls [CSpace]),
     Grp ''url'' (Seq (Lit ''http'') (Plus (NCls [CSpace])))]"

definition link_ref_re :: regex where
  \<comment> \<open>\<open>(?P<id>[A-Za-z0-9_\-.:+]|`[^`]+`)_\<close>\<close>
  "link_ref_re = seqs [
     Grp ''id'' (Alt
       (Cls [CRange CHR ''A'' CHR ''Z'', CRange CHR ''a'' CHR ''z'', CRange CHR ''0'' CHR ''9'',
             CChar CHR ''_'', CChar CHR ''-'', CChar CHR ''.'', CChar CHR '':'', CChar CHR ''+''])
       (seqs [Lit ''`'', Plus (NCls [CChar CHR ''`'']), Lit ''`''])),
     Lit ''_'']"

type_synonym links = "string \<rightharpoonup> string"

definition register_link :: "match \<Rightarrow> links \<Rightarrow> exc + string \<times> links" where
  "register_link m links =
     (let refid = filter (\<lambda>c. \<not> isspace c) (lower (group_str m ''id''))
      in Inr ([], links(refid \<mapsto> group_str m ''url'')))"

definition replace_link :: "match \<Rightarrow> links \<Rightarrow> exc + string \<times> links" where
  "replace_link m links =
     (let text = group_str m ''id'';
          refid = filter (\<lambda>c. \<not> (isspace c \<or> c = CHR ''`'')) (lower text)
      in case links refid of
           Some url \<Rightarrow> Inr (''['' @ strip_chars ''`'' text @ ''](''  @ url @ '')'', links)
         | None \<Rightarrow> Inr (group0 m, links))"

definition embedded_uri :: "match \<Rightarrow> string" where
  \<comment> \<open>the replacement template \<open>[\g<text>](\g<url>)\<close>\<close>
  "embedded_uri m = ''['' @ group_str m ''text'' @ ''](''  @ group_str m ''url'' @ '')''"

definition rst_links_register :: "string \<Rightarrow> string \<times> links" where
  \<comment> \<open>the first two substitutions of \<open>_rst_links\<close>: the text without the targets and the
      dictionary \<open>links\<close>\<close>
  "rst_links_register contents =
     (case re_sub_st link_target_re register_link (re_sub embedded_uri_re embedded_uri contents) Map.empty of
        Inr (contents1, links) \<Rightarrow> (contents1, links)
      | Inl (e :: exc) \<Rightarrow> (contents, Map.empty))"

definition rst_links :: "string \<Rightarrow> string" where
  "rst_links contents =
     (let (contents1, links) = rst_links_register contents
      in case re_sub_st link_ref_re replace_link contents1 links of
           Inr (contents2, _) \<Rightarrow> contents2
         | Inl (e :: exc) \<Rightarrow> contents1)"

definition footnote_re :: regex where
  \<comment> \<open>\<open>^(?P<indent>[ ]*)\.\.[ ]+\[(?P<id>\d+|[#*]\w*)](?P<content>.*(\n|(?P=indent)[ ]+.+)*)$\<close>,
      verbose and multiline\<close>
  "footnote_re = seqs [Bol, Grp ''indent'' (Star (Cls [CChar CHR '' ''])), Lit ''..'',
     Plus (Cls [CChar CHR '' '']), Lit ''['',
     Grp ''id'' (Alt (Plus (Cls [CDigit]))
       (Seq (Cls [CChar CHR ''#'', CChar CHR ''*'']) (Star (Cls [CWord])))),
     Lit '']'',
     Grp ''content'' (Seq (Star Dot)
       (Star (Grp ''4'' (Alt (Lit [CHR 0x0A])
          (seqs [Backref ''indent'', Plus (Cls [CChar CHR '' '']), Plus Dot]))))),
     Eol]"

definition footnote_ref_re :: regex where
  \<comment> \<open>\<open>\[(?P<id>\d+|[#*]\w*)]_\<close>\<close>
  "footnote_ref_re = seqs [Lit ''['',
     Grp ''id'' (Alt (Plus (Cls [CDigit]))
       (Seq (Cls [CChar CHR ''#'', CChar CHR ''*'']) (Star (Cls [CWord])))),
     Lit '']_'']"

text \<open>
  The callbacks of \<open>_rst_footnotes\<close> share the variables \<open>autonum\<close> and \<open>footnotes\<close> of the
  enclosing call; they are the state the substitution threads through its matches.
\<close>

type_synonym fnstate = "nat \<times> string set"

definition footnote_id :: "string \<Rightarrow> nat \<Rightarrow> string \<times> nat" where
  \<comment> \<open>the id a marker stands for, and the counter after it: common to both callbacks\<close>
  "footnote_id fn_id autonum =
     (let (fn_id1, autonum1) =
            (if contains ''*#'' fn_id then (''fn-'' @ str_nat autonum, autonum + 1)
             else (fn_id, autonum))
      in (lstrip_chars ''#*'' fn_id1, autonum1))"

definition register_footnote :: "match \<Rightarrow> fnstate \<Rightarrow> exc + string \<times> fnstate" where
  "register_footnote m st =
     (let (fn_id, autonum) = footnote_id (group_str m ''id'') (fst st);
          footnotes = insert fn_id (snd st);
          content = lstrip (indent (group_str m ''content'') ''   '')
      in Inr (group_str m ''indent'' @ ''[^'' @ fn_id @ '']: '' @ content, (autonum, footnotes)))"

definition replace_references :: "match \<Rightarrow> fnstate \<Rightarrow> exc + string \<times> fnstate" where
  "replace_references m st =
     (let (fn_id, autonum) = footnote_id (group_str m ''id'') (fst st)
      in if fn_id \<in> snd st then Inr (''[^'' @ fn_id @ '']'', (autonum, snd st))
         else Inr (group0 m, (autonum, snd st)))"

definition rst_footnotes_register :: "string \<Rightarrow> string \<times> fnstate" where
  \<comment> \<open>the first substitution of \<open>_rst_footnotes\<close>, run with \<open>autonum = 1\<close> and no footnote\<close>
  "rst_footnotes_register contents =
     (case re_sub_st footnote_re register_footnote contents (1, {}) of
        Inr (contents1, st) \<Rightarrow> (contents1, st)
      | Inl (e :: exc) \<Rightarrow> (contents, (1, {})))"

definition rst_footnotes_replace :: "string \<Rightarrow> string set \<Rightarrow> string \<times> fnstate" where
  \<comment> \<open>the second substitution, run with \<open>autonum = 1\<close> again and the footnotes registered\<close>
  "rst_footnotes_replace contents footnotes =
     (case re_sub_st footnote_ref_re replace_references contents (1, footnotes) of
        Inr (contents1, st) \<Rightarrow> (contents1, st)
      | Inl (e :: exc) \<Rightarrow> (contents, (1, footnotes)))"

definition rst_footnotes :: "string \<Rightarrow> string" where
  "rst_footnotes contents =
     (let (contents1, st) = rst_footnotes_register contents
      in fst (rst_footnotes_replace contents1 (snd st)))"

section \<open>reStructuredText: roles, math and fields\<close>

definition role_re :: regex where
  \<comment> \<open>\<open>(:py)?:(mod|func|data|const|class|meth|attr|exc|obj):`([^`]+)`\<close>\<close>
  "role_re = seqs [Opt (Grp ''1'' (Lit '':py'')), Lit '':'',
     Grp ''2'' (alts [''mod'', ''func'', ''data'', ''const'', ''class'', ''meth'', ''attr'', ''exc'', ''obj'']),
     Lit '':`'', Grp ''3'' (Plus (NCls [CChar CHR ''`''])), Lit ''`'']"

definition replace_reference :: "match \<Rightarrow> string" where
  "replace_reference m =
     (let kind = group_str m ''2''; name = group_str m ''3''
      in if kind \<in> set [''meth'', ''func''] then ''`'' @ name @ ''()`'' else ''`'' @ name @ ''`'')"

definition math_re :: regex where
  \<comment> \<open>\<open>:math:`(.+?)`\<close>\<close>
  "math_re = seqs [Lit '':math:`'', Grp ''1'' (LazyPlus Dot), Lit ''`'']"

definition replace_math :: "match \<Rightarrow> string" where
  \<comment> \<open>the replacement template: two backslashes, \<open>( \<close>, group 1, a blank, two backslashes, \<open>)\<close>\<close>
  "replace_math m = [CHR 0x5C, CHR 0x5C] @ ''( '' @ group_str m ''1'' @ '' '' @ [CHR 0x5C, CHR 0x5C] @ '')''"

definition field_re :: regex where
  \<comment> \<open>\<open>^:(?P<type>param|type|return|rtype|raises)(?:[ ]+(?P<name>.+))?:
      (?P<body>.*((?:\n[ ]*)*[ ]+.+)*(?:\n|$))\<close>, verbose and multiline\<close>
  "field_re = seqs [Bol, Lit '':'',
     Grp ''type'' (alts [''param'', ''type'', ''return'', ''rtype'', ''raises'']),
     Opt (Seq (Plus (Cls [CChar CHR '' ''])) (Grp ''name'' (Plus Dot))),
     Lit '':'',
     Grp ''body'' (seqs [Star Dot,
       Star (Grp ''4'' (seqs [Star (Seq (Lit [CHR 0x0A]) (Star (Cls [CChar CHR '' '']))),
          Plus (Cls [CChar CHR '' '']), Plus Dot])),
       Alt (Lit [CHR 0x0A]) Eol])]"

type_synonym fieldstate = "bool \<times> bool"

definition rst_field :: "match \<Rightarrow> fieldstate \<Rightarrow> exc + string \<times> fieldstate" where
  \<comment> \<open>the state is \<open>(_has_parameter_section, _has_raises_section)\<close>\<close>
  "rst_field m st =
     (let type = group_str m ''type'';
          body = group_str m ''body'';
          name = (case group m ''name'' of
                    Some n \<Rightarrow> if n \<noteq> [] then ''**'' @ strip n @ ''**: '' else []
                  | None \<Rightarrow> [])
      in if type = ''param''
         then (let text = '' - '' @ name @ body
               in if \<not> fst st
                  then Inr ([CHR 0x0A] @ ''###### Parameters'' @ [CHR 0x0A] @ text, (True, snd st))
                  else Inr (text, st))
         else if type = ''type'' then Inr ([], st)
         else if type = ''return''
         then Inr ([CHR 0x0A] @ ''###### Returns'' @ [CHR 0x0A] @ indent_with (\<lambda>line. True) body ''> '', st)
         else if type = ''rtype'' then Inr ([], st)
         else if type = ''raises''
         then (let text = '' - '' @ name @ body
               in if \<not> snd st
                  then Inr ([CHR 0x0A] @ ''###### Raises'' @ [CHR 0x0A] @ text, (fst st, True))
                  else Inr (text, st))
         else Inl AssertionError)"

definition rst_fields :: "string \<Rightarrow> exc + string" where
  "rst_fields contents =
     (case re_sub_st field_re rst_field contents (False, False) of
        Inl e \<Rightarrow> Inl e
      | Inr (contents1, _) \<Rightarrow> Inr contents1)"

section \<open>reStructuredText: admonitions and includes\<close>

text \<open>A match never moves backwards: whatever the continuation accepts lies at or after the start.\<close>

lemma star_greedy_sound:
  assumes "\<And>st k res. f st k = Some res \<Longrightarrow> \<exists>st'. fst st \<le> fst st' \<and> k st' = Some res"
  shows "star_greedy f n st k = Some res \<Longrightarrow> \<exists>st'. fst st \<le> fst st' \<and> k st' = Some res"
proof (induction n arbitrary: st)
  case 0
  then have "fst st \<le> fst st \<and> k st = Some res" by simp
  then show ?case by blast
next
  case (Suc n)
  show ?case
  proof (cases "f st (\<lambda>st'. if fst st < fst st' then star_greedy f n st' k else None)")
    case None
    with Suc.prems have "fst st \<le> fst st \<and> k st = Some res" by simp
    then show ?thesis by blast
  next
    case (Some r)
    with Suc.prems have "r = res" by simp
    with Some assms obtain st1 where
      "fst st \<le> fst st1" "(if fst st < fst st1 then star_greedy f n st1 k else None) = Some res"
      by blast
    then have "star_greedy f n st1 k = Some res" by (auto split: if_splits)
    with Suc.IH obtain st2 where "fst st1 \<le> fst st2" "k st2 = Some res" by blast
    with \<open>fst st \<le> fst st1\<close> have "fst st \<le> fst st2 \<and> k st2 = Some res" by simp
    then show ?thesis by blast
  qed
qed

lemma star_lazy_sound:
  assumes "\<And>st k res. f st k = Some res \<Longrightarrow> \<exists>st'. fst st \<le> fst st' \<and> k st' = Some res"
  shows "star_lazy f n st k = Some res \<Longrightarrow> \<exists>st'. fst st \<le> fst st' \<and> k st' = Some res"
proof (induction n arbitrary: st)
  case 0
  then have "fst st \<le> fst st \<and> k st = Some res" by simp
  then show ?case by blast
next
  case (Suc n)
  show ?case
  proof (cases "k st")
    case (Some r)
    with Suc.prems have "fst st \<le> fst st \<and> k st = Some res" by simp
    then show ?thesis by blast
  next
    case None
    with Suc.prems have "f st (\<lambda>st'. if fst st < fst st' then star_lazy f n st' k else None) = Some res"
      by simp
    with assms obtain st1 where
      "fst st \<le> fst st1" "(if fst st < fst st1 then star_lazy f n st1 k else None) = Some res"
      by blast
    then have "star_lazy f n st1 k = Some res" by (auto split: if_splits)
    with Suc.IH obtain st2 where "fst st1 \<le> fst st2" "k st2 = Some res" by blast
    with \<open>fst st \<le> fst st1\<close> have "fst st \<le> fst st2 \<and> k st2 = Some res" by simp
    then show ?thesis by blast
  qed
qed

lemma rmatch_sound:
  "rmatch r s st k = Some res \<Longrightarrow> \<exists>st'. fst st \<le> fst st' \<and> k st' = Some res"
proof (induction r arbitrary: st k res)
  case (Lit w)
  then have "fst st \<le> fst (fst st + length w, snd st) \<and> k (fst st + length w, snd st) = Some res"
    by (simp split: if_splits)
  then show ?case by blast
next
  case Dot
  then have "fst st \<le> fst (Suc (fst st), snd st) \<and> k (Suc (fst st), snd st) = Some res"
    by (simp add: one_char_def split: if_splits)
  then show ?case by blast
next
  case (Cls cs)
  then have "fst st \<le> fst (Suc (fst st), snd st) \<and> k (Suc (fst st), snd st) = Some res"
    by (simp add: one_char_def split: if_splits)
  then show ?case by blast
next
  case (NCls cs)
  then have "fst st \<le> fst (Suc (fst st), snd st) \<and> k (Suc (fst st), snd st) = Some res"
    by (simp add: one_char_def split: if_splits)
  then show ?case by blast
next
  case Bol
  then have "fst st \<le> fst st \<and> k st = Some res" by (simp split: if_splits)
  then show ?case by blast
next
  case Eol
  then have "fst st \<le> fst st \<and> k st = Some res" by (simp split: if_splits)
  then show ?case by blast
next
  case Bos
  then have "fst st \<le> fst st \<and> k st = Some res" by (simp split: if_splits)
  then show ?case by blast
next
  case Eps
  then have "fst st \<le> fst st \<and> k st = Some res" by simp
  then show ?case by blast
next
  case (Seq a b)
  from Seq.prems have "rmatch a s st (\<lambda>st'. rmatch b s st' k) = Some res" by simp
  from Seq.IH(1)[OF this] obtain st1 where st1: "fst st \<le> fst st1" "rmatch b s st1 k = Some res" by blast
  from Seq.IH(2)[OF st1(2)] obtain st2 where "fst st1 \<le> fst st2" "k st2 = Some res" by blast
  with st1(1) have "fst st \<le> fst st2 \<and> k st2 = Some res" by simp
  then show ?case by blast
next
  case (Alt a b)
  from Alt.prems have "rmatch a s st k = Some res \<or> rmatch b s st k = Some res"
    by (simp split: option.splits)
  with Alt.IH show ?case by blast
next
  case (Star r)
  from Star.prems have "star_greedy (rmatch r s) (length s - fst st) st k = Some res" by simp
  with star_greedy_sound[of "rmatch r s"] Star.IH show ?case by blast
next
  case (Plus r)
  from Plus.prems have "rmatch r s st (\<lambda>st'. star_greedy (rmatch r s) (length s - fst st') st' k) = Some res"
    by simp
  from Plus.IH[OF this] obtain st1 where st1: "fst st \<le> fst st1"
    "star_greedy (rmatch r s) (length s - fst st1) st1 k = Some res" by blast
  from star_greedy_sound[of "rmatch r s", OF _ st1(2)] Plus.IH
  obtain st2 where "fst st1 \<le> fst st2" "k st2 = Some res" by blast
  with st1(1) have "fst st \<le> fst st2 \<and> k st2 = Some res" by simp
  then show ?case by blast
next
  case (Opt r)
  from Opt.prems have "rmatch r s st k = Some res \<or> k st = Some res"
    by (simp split: option.splits)
  then show ?case
  proof
    assume "rmatch r s st k = Some res"
    with Opt.IH show ?thesis by blast
  next
    assume "k st = Some res"
    then have "fst st \<le> fst st \<and> k st = Some res" by simp
    then show ?thesis by blast
  qed
next
  case (LazyStar r)
  from LazyStar.prems have "star_lazy (rmatch r s) (length s - fst st) st k = Some res" by simp
  with star_lazy_sound[of "rmatch r s"] LazyStar.IH show ?case by blast
next
  case (LazyPlus r)
  from LazyPlus.prems have "rmatch r s st (\<lambda>st'. star_lazy (rmatch r s) (length s - fst st') st' k) = Some res"
    by simp
  from LazyPlus.IH[OF this] obtain st1 where st1: "fst st \<le> fst st1"
    "star_lazy (rmatch r s) (length s - fst st1) st1 k = Some res" by blast
  from star_lazy_sound[of "rmatch r s", OF _ st1(2)] LazyPlus.IH
  obtain st2 where "fst st1 \<le> fst st2" "k st2 = Some res" by blast
  with st1(1) have "fst st \<le> fst st2 \<and> k st2 = Some res" by simp
  then show ?case by blast
next
  case (Grp n r)
  from Grp.prems have "rmatch r s st (\<lambda>st'. k (fst st', (n, take (fst st' - fst st) (drop (fst st) s)) # snd st')) = Some res"
    by simp
  from Grp.IH[OF this] obtain st1 where st1: "fst st \<le> fst st1"
    "k (fst st1, (n, take (fst st1 - fst st) (drop (fst st) s)) # snd st1) = Some res" by blast
  then have "fst st \<le> fst (fst st1, (n, take (fst st1 - fst st) (drop (fst st) s)) # snd st1)
     \<and> k (fst st1, (n, take (fst st1 - fst st) (drop (fst st) s)) # snd st1) = Some res" by simp
  then show ?case by blast
next
  case (Backref n)
  then obtain w :: string where "k (fst st + length w, snd st) = Some res"
    by (auto split: option.splits if_splits)
  then have "fst st \<le> fst (fst st + length w, snd st) \<and> k (fst st + length w, snd st) = Some res" by simp
  then show ?case by blast
next
  case (NotAhead r)
  then have "fst st \<le> fst st \<and> k st = Some res" by (simp split: option.splits)
  then show ?case by blast
qed

definition options_re :: regex where
  \<comment> \<open>\<open>^\s*:(.+?):(.*)([\s\S]*)\<close>\<close>
  "options_re = seqs [Bos, Star (Cls [CSpace]), Lit '':'', Grp ''1'' (LazyPlus Dot), Lit '':'',
     Grp ''2'' (Star Dot), Grp ''3'' (Star (Cls [CSpace, CNonSpace]))]"

lemma rmatch_Seq_sound:
  "rmatch (Seq a b) s st k = Some res \<Longrightarrow> \<exists>st'. fst st \<le> fst st' \<and> rmatch b s st' k = Some res"
  using rmatch_sound[of a s st "\<lambda>st'. rmatch b s st' k" res] by simp

lemma rmatch_Lit_sound:
  "rmatch (Seq (Lit w) b) s st k = Some res \<Longrightarrow>
     take (length w) (drop (fst st) s) = w \<and> rmatch b s (fst st + length w, snd st) k = Some res"
  by (simp split: if_splits)

lemma options_re_shorter:
  assumes "re_match options_re s = Some m"
  shows "length (group_str m ''3'') < length s"
proof -
  from assms obtain j g where jg: "rmatch options_re s (0, []) Some = Some (j, g)"
    and m: "m = \<lparr>m_string = s, m_start = 0, m_end = j, m_groups = g\<rparr>"
    by (auto simp: re_match_def match_at_def split: option.splits)
  define R6 where "R6 = Seq (Grp ''3'' (Star (Cls [CSpace, CNonSpace]))) Eps"
  define R5 where "R5 = Seq (Grp ''2'' (Star Dot)) R6"
  define R4 where "R4 = Seq (Lit '':'') R5"
  define R3 where "R3 = Seq (Grp ''1'' (LazyPlus Dot)) R4"
  define R2 where "R2 = Seq (Lit '':'') R3"
  define R1 where "R1 = Seq (Star (Cls [CSpace])) R2"
  have re: "options_re = Seq Bos R1"
    by (simp add: options_re_def seqs_def R1_def R2_def R3_def R4_def R5_def R6_def)
  from jg have "rmatch R1 s (0, []) Some = Some (j, g)"
    unfolding re by (simp split: if_splits)
  then obtain st1 where st1: "rmatch R2 s st1 Some = Some (j, g)"
    unfolding R1_def using rmatch_Seq_sound by blast
  from rmatch_Lit_sound[OF st1[unfolded R2_def]]
  have c1: "take 1 (drop (fst st1) s) = '':''" and r3: "rmatch R3 s (fst st1 + 1, snd st1) Some = Some (j, g)"
    by simp_all
  from c1 have len: "fst st1 < length s" by (cases "fst st1 < length s") auto
  from rmatch_Seq_sound[OF r3[unfolded R3_def]]
  obtain st3 where st3: "rmatch R4 s st3 Some = Some (j, g)" by blast
  from rmatch_Lit_sound[OF st3[unfolded R4_def]]
  have r5: "rmatch R5 s (fst st3 + 1, snd st3) Some = Some (j, g)" by simp
  from rmatch_Seq_sound[OF r5[unfolded R5_def]]
  obtain st5 where st5: "fst (fst st3 + 1, snd st3) \<le> fst st5" "rmatch R6 s st5 Some = Some (j, g)"
    by blast
  from st5(2) have "rmatch (Star (Cls [CSpace, CNonSpace])) s st5
      (\<lambda>st'. Some (fst st', (''3'', take (fst st' - fst st5) (drop (fst st5) s)) # snd st')) = Some (j, g)"
    unfolding R6_def by simp
  from rmatch_sound[OF this] obtain st6 where
    "(fst st6, (''3'', take (fst st6 - fst st5) (drop (fst st5) s)) # snd st6) = (j, g)" by auto
  then have g: "g = (''3'', take (j - fst st5) (drop (fst st5) s)) # snd st6" by auto
  have "group_str m ''3'' = take (j - fst st5) (drop (fst st5) s)"
    by (simp add: group_str_def group_def m g)
  moreover have "0 < fst st5" using st5(1) by simp
  ultimately show ?thesis using len by simp
qed

type_synonym options = "string \<rightharpoonup> string"

function rst_extract_options_loop :: "string \<Rightarrow> options \<Rightarrow> string \<times> options" where
  \<comment> \<open>the \<open>while\<close> loop of \<open>_rst_extract_options\<close>\<close>
  "rst_extract_options_loop contents options =
     (case re_match options_re contents of
        None \<Rightarrow> (contents, options)
      | Some m \<Rightarrow>
          rst_extract_options_loop (group_str m ''3'')
            (options(group_str m ''1'' \<mapsto> strip (group_str m ''2''))))"
  by pat_completeness auto
termination
  by (relation "measure (\<lambda>(contents, options). length contents)") (auto simp: options_re_shorter)

definition rst_extract_options :: "string \<Rightarrow> string \<times> options" where
  "rst_extract_options contents = rst_extract_options_loop contents Map.empty"

definition truthy :: "string option \<Rightarrow> string option" where
  \<comment> \<open>\<open>if x := options.get(key)\<close>: the value when the key is there and its value not empty\<close>
  "truthy v = (case v of Some x \<Rightarrow> if x \<noteq> [] then Some x else None | None \<Rightarrow> None)"

definition include_lines :: "string \<Rightarrow> options \<Rightarrow> string option" where
  \<comment> \<open>the first \<open>if\<close> of \<open>_rst_include_trim\<close>; \<open>None\<close> is the ValueError of \<open>int\<close>\<close>
  "include_lines contents options =
     (if options ''end-line'' \<noteq> None \<or> options ''start-line'' \<noteq> None
      then (let lines = splitlines False contents
            in case (case truthy (options ''end-line'') of
                       Some i \<Rightarrow> map_option (\<lambda>n. slice_to n lines) (py_int i)
                     | None \<Rightarrow> Some lines) of
                 None \<Rightarrow> None
               | Some lines1 \<Rightarrow>
                   (case (case truthy (options ''start-line'') of
                            Some i \<Rightarrow> map_option (\<lambda>n. slice_from n lines1) (py_int i)
                          | None \<Rightarrow> Some lines1) of
                      None \<Rightarrow> None
                    | Some lines2 \<Rightarrow> Some (join [CHR 0x0A] lines2)))
      else Some contents)"

definition rst_include_trim :: "string \<Rightarrow> options \<Rightarrow> string option" where
  \<comment> \<open>\<open>None\<close> is the ValueError of \<open>int\<close> or of \<open>str.index\<close>\<close>
  "rst_include_trim contents options =
     (case include_lines contents options of
        None \<Rightarrow> None
      | Some contents1 \<Rightarrow>
          (case (case truthy (options ''end-before'') of
                   Some x \<Rightarrow> map_option (\<lambda>i. take i contents1) (str_index contents1 x)
                 | None \<Rightarrow> Some contents1) of
             None \<Rightarrow> None
           | Some contents2 \<Rightarrow>
               (case truthy (options ''start-after'') of
                  Some x \<Rightarrow> map_option (\<lambda>i. drop (i + length x) contents2) (str_index contents2 x)
                | None \<Rightarrow> Some contents2)))"

definition admonition_re :: regex where
  \<comment> \<open>\<open>^(?P<indent>[ ]*)\.\.[ ]+(?P<type>note|warning|danger|versionadded|versionchanged|
      deprecated|seealso|math|include|code-block)::(?P<val>.*)
      (?P<contents>(\n|(?P=indent)[ ]+.+)*)$\<close>, verbose and multiline\<close>
  "admonition_re = seqs [Bol, Grp ''indent'' (Star (Cls [CChar CHR '' ''])), Lit ''..'',
     Plus (Cls [CChar CHR '' '']),
     Grp ''type'' (alts [''note'', ''warning'', ''danger'', ''versionadded'', ''versionchanged'',
       ''deprecated'', ''seealso'', ''math'', ''include'', ''code-block'']),
     Lit ''::'', Grp ''val'' (Star Dot),
     Grp ''contents'' (Star (Grp ''5'' (Alt (Lit [CHR 0x0A])
        (seqs [Backref ''indent'', Plus (Cls [CChar CHR '' '']), Plus Dot])))),
     Eol]"

type_synonym 'a raising = "exc + 'a \<times> warning list"

definition include_read :: "world \<Rightarrow> string \<Rightarrow> string \<Rightarrow> warning list \<Rightarrow> string raising" where
  \<comment> \<open>the first \<open>try\<close> of the include branch: only an \<open>OSError\<close> is caught\<close>
  "include_read w path val warns =
     (case read_text w path of
        Inl e \<Rightarrow> if e = OSError then Inr ([CHR 0x0A], warns @ [CannotInclude val]) else Inl e
      | Inr text \<Rightarrow> Inr (text, warns))"

definition include_trim :: "string \<Rightarrow> options \<Rightarrow> string \<Rightarrow> warning list \<Rightarrow> string \<times> warning list" where
  \<comment> \<open>the second \<open>try\<close> of the include branch\<close>
  "include_trim included options val warns =
     (case rst_include_trim included options of
        None \<Rightarrow> (included, warns @ [IncludeOptionsFailed val])
      | Some trimmed \<Rightarrow> (trimmed @ [CHR 0x0A], warns))"

definition rst_admonition :: "world \<Rightarrow> string option
    \<Rightarrow> (string \<Rightarrow> string \<Rightarrow> warning list \<Rightarrow> string raising)
    \<Rightarrow> match \<Rightarrow> warning list \<Rightarrow> string raising" where
  \<comment> \<open>\<open>recurse\<close> is \<open>_rst_admonitions\<close>, which the include branch calls on the included text\<close>
  "rst_admonition w source_file recurse m warns =
     (let ind = group_str m ''indent'';
          type = group_str m ''type'';
          val = strip (group_str m ''val'');
          (contents, options) = rst_extract_options (strip (dedent (group_str m ''contents'')))
      in if type = ''include''
         then (let loc = (case source_file of Some f \<Rightarrow> f | None \<Rightarrow> ''.'');
                   path = path_join w loc val
               in case include_read w path val warns of
                    Inl e \<Rightarrow> Inl e
                  | Inr (included, warns1) \<Rightarrow>
                      (let (included1, warns2) = include_trim included options val warns1
                       in case recurse included1 path warns2 of
                            Inl e \<Rightarrow> Inl e
                          | Inr (included2, warns3) \<Rightarrow>
                              (case embed_images w included2 path of
                                 Inl e \<Rightarrow> Inl e
                               | Inr included3 \<Rightarrow> Inr (indent included3 ind, warns3))))
         else if type = ''math''
         then Inr (ind @ ''$$'' @ val @ contents @ ''$$'' @ [CHR 0x0A], warns)
         else if type \<in> set [''note'', ''warning'', ''danger'']
         then (let heading = (if val \<noteq> [] then ind @ ''###### '' @ val @ [CHR 0x0A] else [])
               in Inr (ind @ ''<div class='' @ [CHR 0x22] @ ''alert '' @ type @ [CHR 0x22]
                       @ '' markdown='' @ [CHR 0x22] @ ''1'' @ [CHR 0x22] @ ''>'' @ [CHR 0x0A]
                       @ heading
                       @ indent contents ind @ [CHR 0x0A]
                       @ ind @ ''</div>'' @ [CHR 0x0A], warns))
         else if type = ''code-block''
         then Inr (ind @ ''```'' @ val @ [CHR 0x0A] @ contents @ [CHR 0x0A] @ ''```'' @ [CHR 0x0A], warns)
         else (let text = (if type = ''versionadded'' then ''New in version '' @ val
                           else if type = ''versionchanged'' then ''Changed in version '' @ val
                           else if type = ''deprecated'' then ''Deprecated since version '' @ val
                           else strip (type @ '' '' @ val))
               in if contents \<noteq> []
                  then Inr (ind @ ''*'' @ text @ '':*'' @ [CHR 0x0A] @ indent contents ind
                            @ [CHR 0x0A, CHR 0x0A], warns)
                  else Inr (ind @ ''*'' @ text @ ''.*'' @ [CHR 0x0A], warns)))"

primrec rst_admonitions_depth :: "nat \<Rightarrow> world \<Rightarrow> string \<Rightarrow> string option \<Rightarrow> warning list
    \<Rightarrow> string raising" where
  \<comment> \<open>\<open>_rst_admonitions\<close> with the number of nested calls the stack still admits\<close>
  "rst_admonitions_depth 0 w contents source_file warns = Inl RecursionError"
| "rst_admonitions_depth (Suc d) w contents source_file warns =
     re_sub_st admonition_re
       (rst_admonition w source_file
          (\<lambda>included path. rst_admonitions_depth d w included (Some path)))
       contents warns"

definition rst_admonitions :: "world \<Rightarrow> string \<Rightarrow> string option \<Rightarrow> string raising" where
  "rst_admonitions w contents source_file =
     rst_admonitions_depth (Suc (include_depth w)) w contents source_file []"

section \<open>rst and convert\<close>

definition rst :: "world \<Rightarrow> string \<Rightarrow> string option \<Rightarrow> string raising" where
  "rst w contents source_file =
     (case rst_admonitions w contents source_file of
        Inl e \<Rightarrow> Inl e
      | Inr (contents1, warns) \<Rightarrow>
          (let contents2 = rst_links contents1;
               contents3 = re_sub role_re replace_reference contents2;
               contents4 = re_sub math_re replace_math contents3;
               contents5 = rst_footnotes contents4
           in case rst_fields contents5 of
                Inl e \<Rightarrow> Inl e
              | Inr contents6 \<Rightarrow> Inr (contents6, warns)))"

definition reraise :: "string \<Rightarrow> string option \<Rightarrow> string \<Rightarrow> exc \<Rightarrow> exc" where
  \<comment> \<open>the \<open>except AnyException\<close> clause of \<open>convert\<close>: \<open>docstring\<close> is the value the
      variable holds when the exception arrives\<close>
  "reraise docstring source_file docformat e =
     (if AnyException e then RuntimeError docstring source_file docformat e else e)"

definition run_rst :: "world \<Rightarrow> string \<Rightarrow> string \<Rightarrow> string option \<Rightarrow> string raising" where
  \<comment> \<open>the first statement of the \<open>try\<close> block of \<open>convert\<close>\<close>
  "run_rst w docformat docstring source_file =
     (if list_ex (contains docformat) [''google'', ''numpy'', ''restructuredtext'']
      then rst w docstring source_file else Inr (docstring, []))"

definition run_google :: "string \<Rightarrow> string \<Rightarrow> exc + string" where
  \<comment> \<open>the second statement\<close>
  "run_google docformat docstring =
     (if contains docformat ''google'' then google docstring else Inr docstring)"

definition run_numpy :: "string \<Rightarrow> string \<Rightarrow> exc + string" where
  \<comment> \<open>the third statement\<close>
  "run_numpy docformat docstring =
     (if contains docformat ''numpy'' then numpy docstring else Inr docstring)"

definition run_embed_images :: "world \<Rightarrow> string \<Rightarrow> string option \<Rightarrow> exc + string" where
  \<comment> \<open>the fourth statement\<close>
  "run_embed_images w docstring source_file =
     (case source_file of
        Some f \<Rightarrow> if PDOC_EMBED_IMAGES w \<noteq> Some ''0'' then embed_images w docstring f else Inr docstring
      | None \<Rightarrow> Inr docstring)"

definition convert :: "world \<Rightarrow> string \<Rightarrow> string \<Rightarrow> string option \<Rightarrow> string raising" where
  \<comment> \<open>the body of \<open>convert\<close>: the value returned, and the warnings issued on the way.
      Each statement of the \<open>try\<close> block assigns to \<open>docstring\<close>, so the handler sees the
      value the variable held when the failing statement began\<close>
  "convert w docstring docformat0 source_file =
     (let docformat = lower docformat0
      in case run_rst w docformat docstring source_file of
           Inl e \<Rightarrow> Inl (reraise docstring source_file docformat e)
         | Inr (docstring1, warns) \<Rightarrow>
             (case run_google docformat docstring1 of
                Inl e \<Rightarrow> Inl (reraise docstring1 source_file docformat e)
              | Inr docstring2 \<Rightarrow>
                  (case run_numpy docformat docstring2 of
                     Inl e \<Rightarrow> Inl (reraise docstring2 source_file docformat e)
                   | Inr docstring3 \<Rightarrow>
                       (case run_embed_images w docstring3 source_file of
                          Inl e \<Rightarrow> Inl (reraise docstring3 source_file docformat e)
                        | Inr docstring4 \<Rightarrow> Inr (docstring4, warns)))))"



definition no_files :: world where
  \<comment> \<open>a world in which no file can be read, with room for ten levels of includes\<close>
  "no_files = \<lparr>path_join = (\<lambda>loc rel. rel), read_bytes = (\<lambda>p. Inl OSError),
     read_text = (\<lambda>p. Inl OSError), guess_type = (\<lambda>p. None), PDOC_EMBED_IMAGES = None,
     include_depth = 10\<rparr>"

section \<open>Properties of convert\<close>

lemma rst_admonitions_no_match:
  "search_from admonition_re contents 0 = None \<Longrightarrow> rst_admonitions w contents src = Inr (contents, [])"
  by (simp add: rst_admonitions_def re_sub_st_def sub_from.simps)

text \<open>
  C9. If the lowercased convention tag contains none of \<open>google\<close>, \<open>numpy\<close> and
  \<open>restructuredtext\<close> and no source location is given, \<open>convert\<close> returns the input text
  unchanged (and issues no warning).
\<close>

theorem convert_unknown_tag:
  assumes "\<not> contains (lower docformat) ''google''"
    and "\<not> contains (lower docformat) ''numpy''"
    and "\<not> contains (lower docformat) ''restructuredtext''"
  shows "convert w docstring docformat None = Inr (docstring, [])"
  using assms
  by (simp add: convert_def run_rst_def run_google_def run_numpy_def run_embed_images_def)

theorem convert_unknown_tag_witness:
  "\<not> contains (lower ''Markdown'') ''google'' \<and> \<not> contains (lower ''Markdown'') ''numpy''
   \<and> \<not> contains (lower ''Markdown'') ''restructuredtext''
   \<and> convert no_files ''some *text*'' ''Markdown'' None = Inr (''some *text*'', [])"
proof -
  have a: "\<not> contains (lower ''Markdown'') ''google''" by code_simp
  have b: "\<not> contains (lower ''Markdown'') ''numpy''" by code_simp
  have c: "\<not> contains (lower ''Markdown'') ''restructuredtext''" by code_simp
  from convert_unknown_tag[OF a b c] a b c show ?thesis by simp
qed

lemma rst_plain:
  assumes "search_from admonition_re contents 0 = None"
    and "rst_fields (rst_footnotes (re_sub math_re replace_math
          (re_sub role_re replace_reference (rst_links contents)))) = Inr contents'"
  shows "rst w contents src = Inr (contents', [])"
  using assms by (simp add: rst_def rst_admonitions_no_match)

lemma tags_google:
  "lower ''google'' = ''google''"
  "list_ex (contains ''google'') [''google'', ''numpy'', ''restructuredtext'']"
  "contains ''google'' ''google''"
  "\<not> contains ''google'' ''numpy''"
  by code_simp+

lemma tags_numpy:
  "lower ''numpy'' = ''numpy''"
  "list_ex (contains ''numpy'') [''google'', ''numpy'', ''restructuredtext'']"
  "\<not> contains ''numpy'' ''google''"
  "contains ''numpy'' ''numpy''"
  by code_simp+

lemma tags_rst:
  "lower ''restructuredtext'' = ''restructuredtext''"
  "list_ex (contains ''restructuredtext'') [''google'', ''numpy'', ''restructuredtext'']"
  "\<not> contains ''restructuredtext'' ''google''"
  "\<not> contains ''restructuredtext'' ''numpy''"
  by code_simp+

lemma google_example_eval:
  "convert w ''Args:\<newline>    x: the input\<newline>    y (int): the count'' ''google'' None
   = Inr (''\<newline>###### Arguments:\<newline> - **x:**  the input\<newline> - **y (int):**  the count\<newline>\<newline>'', [])"
proof -
  let ?d = "''Args:\<newline>    x: the input\<newline>    y (int): the count''"
  have a: "search_from admonition_re ?d 0 = None" by code_simp
  have b: "rst_fields (rst_footnotes (re_sub math_re replace_math
      (re_sub role_re replace_reference (rst_links ?d)))) = Inr ?d" by code_simp
  have g: "google ?d = Inr ''\<newline>###### Arguments:\<newline> - **x:**  the input\<newline> - **y (int):**  the count\<newline>\<newline>''"
    by code_simp
  show ?thesis
    unfolding convert_def run_rst_def run_google_def run_numpy_def run_embed_images_def
    by (simp add: tags_google rst_plain[OF a b] g)
qed

text \<open>
  C3, as stated: the output for the Google docstring contains the bullet lines
  \<open>- **x:** the input\<close> and \<open>- **y (int):** the count\<close>. It contains neither: the label
  is followed by the blank of the format string and by the blank that follows the colon
  in the item.
\<close>

theorem google_bullets_counterexample:
  "convert no_files ''Args:\<newline>    x: the input\<newline>    y (int): the count'' ''google'' None
     = Inr (''\<newline>###### Arguments:\<newline> - **x:**  the input\<newline> - **y (int):**  the count\<newline>\<newline>'', [])
   \<and> \<not> contains ''\<newline>###### Arguments:\<newline> - **x:**  the input\<newline> - **y (int):**  the count\<newline>\<newline>''
         ''- **x:** the input''
   \<and> \<not> contains ''\<newline>###### Arguments:\<newline> - **x:**  the input\<newline> - **y (int):**  the count\<newline>\<newline>''
         ''- **y (int):** the count''"
proof -
  have "\<not> contains ''\<newline>###### Arguments:\<newline> - **x:**  the input\<newline> - **y (int):**  the count\<newline>\<newline>''
         ''- **x:** the input''" by code_simp
  moreover have "\<not> contains ''\<newline>###### Arguments:\<newline> - **x:**  the input\<newline> - **y (int):**  the count\<newline>\<newline>''
         ''- **y (int):** the count''" by code_simp
  ultimately show ?thesis using google_example_eval[of no_files] by simp
qed

text \<open>
  C3, amended: with the Google convention and no source location the docstring converts
  to the heading \<open>###### Arguments:\<close> followed by the bullet lines
  \<open>- **x:**  the input\<close> and \<open>- **y (int):**  the count\<close>: the colon stays inside
  the bolded label, and two blanks separate the label from the description.
\<close>

theorem google_example_converted:
  "\<exists>out. convert w ''Args:\<newline>    x: the input\<newline>    y (int): the count'' ''google'' None = Inr (out, [])
     \<and> contains out ''###### Arguments:''
     \<and> contains out ('' - **x:**  the input'' @ [CHR 0x0A])
     \<and> contains out ('' - **y (int):**  the count'' @ [CHR 0x0A])"
proof -
  let ?out = "''\<newline>###### Arguments:\<newline> - **x:**  the input\<newline> - **y (int):**  the count\<newline>\<newline>''"
  have "contains ?out ''###### Arguments:''" by code_simp
  moreover have "contains ?out ('' - **x:**  the input'' @ [CHR 0x0A])" by code_simp
  moreover have "contains ?out ('' - **y (int):**  the count'' @ [CHR 0x0A])" by code_simp
  ultimately show ?thesis using google_example_eval[of w] by blast
qed

lemma rst_example_eval:
  "convert w '':param x: the input\<newline>:return: the result'' ''restructuredtext'' None
   = Inr (''\<newline>###### Parameters\<newline> - **x**:  the input\<newline>\<newline>###### Returns\<newline>>  the result'', [])"
proof -
  let ?d = "'':param x: the input\<newline>:return: the result''"
  have a: "search_from admonition_re ?d 0 = None" by code_simp
  have b: "rst_fields (rst_footnotes (re_sub math_re replace_math
      (re_sub role_re replace_reference (rst_links ?d))))
     = Inr ''\<newline>###### Parameters\<newline> - **x**:  the input\<newline>\<newline>###### Returns\<newline>>  the result''" by code_simp
  show ?thesis
    unfolding convert_def run_rst_def run_google_def run_numpy_def run_embed_images_def
    by (simp add: tags_rst rst_plain[OF a b])
qed

text \<open>
  C4, as stated: the output for the field list contains the bullet \<open>- **x**: the input\<close>.
  It does not: the bolded name is followed by a colon, the blank of the format string and
  the blank that starts the body of the field.
\<close>

theorem rst_fields_counterexample:
  "convert no_files '':param x: the input\<newline>:return: the result'' ''restructuredtext'' None
     = Inr (''\<newline>###### Parameters\<newline> - **x**:  the input\<newline>\<newline>###### Returns\<newline>>  the result'', [])
   \<and> \<not> contains ''\<newline>###### Parameters\<newline> - **x**:  the input\<newline>\<newline>###### Returns\<newline>>  the result''
         ''- **x**: the input''"
proof -
  have "\<not> contains ''\<newline>###### Parameters\<newline> - **x**:  the input\<newline>\<newline>###### Returns\<newline>>  the result''
         ''- **x**: the input''" by code_simp
  then show ?thesis using rst_example_eval[of no_files] by simp
qed

text \<open>
  C4, amended: with the reStructuredText convention and no source location the field
  list converts to a \<open>###### Parameters\<close> section with the bullet \<open>- **x**:  the input\<close>
  (two blanks after the colon) and a \<open>###### Returns\<close> section whose body is the
  blockquote line \<open>>  the result\<close>.
\<close>

theorem rst_example_converted:
  "\<exists>out. convert w '':param x: the input\<newline>:return: the result'' ''restructuredtext'' None = Inr (out, [])
     \<and> contains out (''###### Parameters'' @ [CHR 0x0A] @ '' - **x**:  the input'' @ [CHR 0x0A])
     \<and> contains out (''###### Returns'' @ [CHR 0x0A] @ ''>  the result'')"
proof -
  let ?out = "''\<newline>###### Parameters\<newline> - **x**:  the input\<newline>\<newline>###### Returns\<newline>>  the result''"
  have "contains ?out (''###### Parameters'' @ [CHR 0x0A] @ '' - **x**:  the input'' @ [CHR 0x0A])" by code_simp
  moreover have "contains ?out (''###### Returns'' @ [CHR 0x0A] @ ''>  the result'')" by code_simp
  ultimately show ?thesis using rst_example_eval[of w] by blast
qed

lemma numpy_example_eval:
  "convert w ''Parameters\<newline>----------\<newline>  x\<newline> y'' ''numpy'' None
   = Inl (RuntimeError ''Parameters\<newline>----------\<newline>  x\<newline> y'' None ''numpy'' AssertionError)"
proof -
  let ?d = "''Parameters\<newline>----------\<newline>  x\<newline> y''"
  have a: "search_from admonition_re ?d 0 = None" by code_simp
  have b: "rst_fields (rst_footnotes (re_sub math_re replace_math
      (re_sub role_re replace_reference (rst_links ?d)))) = Inr ?d" by code_simp
  have n: "numpy ?d = Inl AssertionError" by code_simp
  have r: "reraise ?d None ''numpy'' AssertionError = RuntimeError ?d None ''numpy'' AssertionError"
    by (simp add: reraise_def AnyException_def is_Exception_def)
  show ?thesis
    unfolding convert_def run_rst_def run_google_def run_numpy_def run_embed_images_def
    by (simp add: tags_numpy rst_plain[OF a b] n r)
qed

text \<open>
  C8. The NumPy converter hands the splitter the dedented content of a section without
  stripping it, so the text can start with a blank: for the docstring below the first
  assertion of the splitter fails and \<open>convert\<close> raises.
\<close>

theorem numpy_splitter_assertion_fails:
  "convert w ''Parameters\<newline>----------\<newline>  x\<newline> y'' ''numpy'' None
   = Inl (RuntimeError ''Parameters\<newline>----------\<newline>  x\<newline> y'' None ''numpy'' AssertionError)"
  by (rule numpy_example_eval)

lemma reraise_cases:
  "reraise doc src fmt cause =
     (if cause = KeyboardInterrupt then KeyboardInterrupt else RuntimeError doc src fmt cause)"
  by (cases cause) (simp_all add: reraise_def AnyException_def is_Exception_def)

lemma numpy_math_example_eval:
  "convert w '':math:`a`\<newline>\<newline>Parameters\<newline>----------\<newline>  x\<newline> y'' ''numpy'' None
   = Inl (RuntimeError ([CHR 0x5C, CHR 0x5C] @ ''( a '' @ [CHR 0x5C, CHR 0x5C] @ '')\<newline>\<newline>Parameters\<newline>----------\<newline>  x\<newline> y'')
            None ''numpy'' AssertionError)"
proof -
  let ?d = "'':math:`a`\<newline>\<newline>Parameters\<newline>----------\<newline>  x\<newline> y''"
  let ?d' = "[CHR 0x5C, CHR 0x5C] @ ''( a '' @ [CHR 0x5C, CHR 0x5C] @ '')\<newline>\<newline>Parameters\<newline>----------\<newline>  x\<newline> y''"
  have a: "search_from admonition_re ?d 0 = None" by code_simp
  have b: "rst_fields (rst_footnotes (re_sub math_re replace_math
      (re_sub role_re replace_reference (rst_links ?d)))) = Inr ?d'" by code_simp
  have n: "numpy ?d' = Inl AssertionError" by code_simp
  show ?thesis
    unfolding convert_def run_rst_def run_google_def run_numpy_def run_embed_images_def
    by (simp add: tags_numpy rst_plain[OF a b] n[simplified] reraise_cases)
qed

text \<open>
  C1, as stated: the diagnostic failure carries the original input text. Here the first
  stage rewrites the math role and the NumPy stage then fails; the error carries the
  rewritten text, which differs from the input.
\<close>

theorem convert_failure_counterexample:
  "convert no_files '':math:`a`\<newline>\<newline>Parameters\<newline>----------\<newline>  x\<newline> y'' ''numpy'' None
     = Inl (RuntimeError ([CHR 0x5C, CHR 0x5C] @ ''( a '' @ [CHR 0x5C, CHR 0x5C] @ '')\<newline>\<newline>Parameters\<newline>----------\<newline>  x\<newline> y'')
            None ''numpy'' AssertionError)
   \<and> [CHR 0x5C, CHR 0x5C] @ ''( a '' @ [CHR 0x5C, CHR 0x5C] @ '')\<newline>\<newline>Parameters\<newline>----------\<newline>  x\<newline> y''
       \<noteq> '':math:`a`\<newline>\<newline>Parameters\<newline>----------\<newline>  x\<newline> y''"
  using numpy_math_example_eval[of no_files] by simp

text \<open>
  C1, amended: the four statements of the \<open>try\<close> block run in order, each on the text
  the one before returned. When one of them raises, \<open>convert\<close> raises: a
  \<open>KeyboardInterrupt\<close> passes through unchanged; any other exception is replaced by one
  \<open>RuntimeError\<close> raised from it, which carries the source location, the lowercased tag,
  and the text the failing statement was given: the input text when the first statement
  fails, and otherwise the text as rewritten by the statements that completed. When all
  four return, \<open>convert\<close> returns; it raises in no other way.
\<close>

lemma convert_raises_from_stage:
  assumes "convert w docstring docformat source_file = Inl e"
  shows "\<exists>doc cause.
      e = (if cause = KeyboardInterrupt then KeyboardInterrupt
           else RuntimeError doc source_file (lower docformat) cause)
    \<and> ((doc = docstring \<and> run_rst w (lower docformat) docstring source_file = Inl cause)
       \<or> (\<exists>ws. run_rst w (lower docformat) docstring source_file = Inr (doc, ws)
             \<and> run_google (lower docformat) doc = Inl cause)
       \<or> (\<exists>d1 ws. run_rst w (lower docformat) docstring source_file = Inr (d1, ws)
             \<and> run_google (lower docformat) d1 = Inr doc
             \<and> run_numpy (lower docformat) doc = Inl cause)
       \<or> (\<exists>d1 d2 ws. run_rst w (lower docformat) docstring source_file = Inr (d1, ws)
             \<and> run_google (lower docformat) d1 = Inr d2
             \<and> run_numpy (lower docformat) d2 = Inr doc
             \<and> run_embed_images w doc source_file = Inl cause))"
proof (cases "run_rst w (lower docformat) docstring source_file")
  case (Inl c)
  with assms have "e = reraise docstring source_file (lower docformat) c"
    by (simp add: convert_def)
  with Inl show ?thesis unfolding reraise_cases by blast
next
  case (Inr p)
  obtain d1 ws where p: "p = (d1, ws)" by (cases p)
  show ?thesis
  proof (cases "run_google (lower docformat) d1")
    case (Inl c)
    with assms Inr p have "e = reraise d1 source_file (lower docformat) c"
      by (simp add: convert_def)
    with Inl Inr p show ?thesis unfolding reraise_cases by blast
  next
    case g: (Inr d2)
    show ?thesis
    proof (cases "run_numpy (lower docformat) d2")
      case (Inl c)
      with assms Inr p g have "e = reraise d2 source_file (lower docformat) c"
        by (simp add: convert_def)
      with Inl Inr p g show ?thesis unfolding reraise_cases by blast
    next
      case n: (Inr d3)
      show ?thesis
      proof (cases "run_embed_images w d3 source_file")
        case (Inl c)
        with assms Inr p g n have "e = reraise d3 source_file (lower docformat) c"
          by (simp add: convert_def)
        with Inl Inr p g n show ?thesis unfolding reraise_cases by blast
      next
        case i: (Inr d4)
        with assms Inr p g n show ?thesis by (simp add: convert_def)
      qed
    qed
  qed
qed

definition interrupted :: world where
  \<comment> \<open>a world in which the user interrupts every read of a file\<close>
  "interrupted = \<lparr>path_join = (\<lambda>loc rel. rel), read_bytes = (\<lambda>p. Inl KeyboardInterrupt),
     read_text = (\<lambda>p. Inl KeyboardInterrupt), guess_type = (\<lambda>p. None), PDOC_EMBED_IMAGES = None,
     include_depth = 10\<rparr>"

theorem convert_failure:
  "(run_rst w (lower docformat) docstring source_file = Inl cause
      \<longrightarrow> convert w docstring docformat source_file
          = Inl (if cause = KeyboardInterrupt then KeyboardInterrupt
                 else RuntimeError docstring source_file (lower docformat) cause))
   \<and> (run_rst w (lower docformat) docstring source_file = Inr (d1, ws)
       \<and> run_google (lower docformat) d1 = Inl cause
      \<longrightarrow> convert w docstring docformat source_file
          = Inl (if cause = KeyboardInterrupt then KeyboardInterrupt
                 else RuntimeError d1 source_file (lower docformat) cause))
   \<and> (run_rst w (lower docformat) docstring source_file = Inr (d1, ws)
       \<and> run_google (lower docformat) d1 = Inr d2
       \<and> run_numpy (lower docformat) d2 = Inl cause
      \<longrightarrow> convert w docstring docformat source_file
          = Inl (if cause = KeyboardInterrupt then KeyboardInterrupt
                 else RuntimeError d2 source_file (lower docformat) cause))
   \<and> (run_rst w (lower docformat) docstring source_file = Inr (d1, ws)
       \<and> run_google (lower docformat) d1 = Inr d2
       \<and> run_numpy (lower docformat) d2 = Inr d3
       \<and> run_embed_images w d3 source_file = Inl cause
      \<longrightarrow> convert w docstring docformat source_file
          = Inl (if cause = KeyboardInterrupt then KeyboardInterrupt
                 else RuntimeError d3 source_file (lower docformat) cause))
   \<and> (run_rst w (lower docformat) docstring source_file = Inr (d1, ws)
       \<and> run_google (lower docformat) d1 = Inr d2
       \<and> run_numpy (lower docformat) d2 = Inr d3
       \<and> run_embed_images w d3 source_file = Inr d4
      \<longrightarrow> convert w docstring docformat source_file = Inr (d4, ws))
   \<and> (convert w docstring docformat source_file = Inl e
      \<longrightarrow> (\<exists>doc cause.
          e = (if cause = KeyboardInterrupt then KeyboardInterrupt
               else RuntimeError doc source_file (lower docformat) cause)
        \<and> ((doc = docstring \<and> run_rst w (lower docformat) docstring source_file = Inl cause)
           \<or> (\<exists>ws. run_rst w (lower docformat) docstring source_file = Inr (doc, ws)
                 \<and> run_google (lower docformat) doc = Inl cause)
           \<or> (\<exists>d1 ws. run_rst w (lower docformat) docstring source_file = Inr (d1, ws)
                 \<and> run_google (lower docformat) d1 = Inr doc
                 \<and> run_numpy (lower docformat) doc = Inl cause)
           \<or> (\<exists>d1 d2 ws. run_rst w (lower docformat) docstring source_file = Inr (d1, ws)
                 \<and> run_google (lower docformat) d1 = Inr d2
                 \<and> run_numpy (lower docformat) d2 = Inr doc
                 \<and> run_embed_images w doc source_file = Inl cause))))"
proof -
  have conv: "(convert w docstring docformat source_file = Inl e
        \<longrightarrow> (\<exists>doc cause.
            e = (if cause = KeyboardInterrupt then KeyboardInterrupt
                 else RuntimeError doc source_file (lower docformat) cause)
          \<and> ((doc = docstring \<and> run_rst w (lower docformat) docstring source_file = Inl cause)
             \<or> (\<exists>ws. run_rst w (lower docformat) docstring source_file = Inr (doc, ws)
                   \<and> run_google (lower docformat) doc = Inl cause)
             \<or> (\<exists>d1 ws. run_rst w (lower docformat) docstring source_file = Inr (d1, ws)
                   \<and> run_google (lower docformat) d1 = Inr doc
                   \<and> run_numpy (lower docformat) doc = Inl cause)
             \<or> (\<exists>d1 d2 ws. run_rst w (lower docformat) docstring source_file = Inr (d1, ws)
                   \<and> run_google (lower docformat) d1 = Inr d2
                   \<and> run_numpy (lower docformat) d2 = Inr doc
                   \<and> run_embed_images w doc source_file = Inl cause))))"
    using convert_raises_from_stage[of w docstring docformat source_file e] by blast
  have f1: "(run_rst w (lower docformat) docstring source_file = Inl cause
        \<longrightarrow> convert w docstring docformat source_file
            = Inl (if cause = KeyboardInterrupt then KeyboardInterrupt
                   else RuntimeError docstring source_file (lower docformat) cause))"
    by (simp add: convert_def reraise_cases)
  have f2: "(run_rst w (lower docformat) docstring source_file = Inr (d1, ws)
         \<and> run_google (lower docformat) d1 = Inl cause
        \<longrightarrow> convert w docstring docformat source_file
            = Inl (if cause = KeyboardInterrupt then KeyboardInterrupt
                   else RuntimeError d1 source_file (lower docformat) cause))"
    by (simp add: convert_def reraise_cases)
  have f3: "(run_rst w (lower docformat) docstring source_file = Inr (d1, ws)
         \<and> run_google (lower docformat) d1 = Inr d2
         \<and> run_numpy (lower docformat) d2 = Inl cause
        \<longrightarrow> convert w docstring docformat source_file
            = Inl (if cause = KeyboardInterrupt then KeyboardInterrupt
                   else RuntimeError d2 source_file (lower docformat) cause))"
    by (simp add: convert_def reraise_cases)
  have f4: "(run_rst w (lower docformat) docstring source_file = Inr (d1, ws)
         \<and> run_google (lower docformat) d1 = Inr d2
         \<and> run_numpy (lower docformat) d2 = Inr d3
         \<and> run_embed_images w d3 source_file = Inl cause
        \<longrightarrow> convert w docstring docformat source_file
            = Inl (if cause = KeyboardInterrupt then KeyboardInterrupt
                   else RuntimeError d3 source_file (lower docformat) cause))"
    by (simp add: convert_def reraise_cases)
  have f5: "(run_rst w (lower docformat) docstring source_file = Inr (d1, ws)
         \<and> run_google (lower docformat) d1 = Inr d2
         \<and> run_numpy (lower docformat) d2 = Inr d3
         \<and> run_embed_images w d3 source_file = Inr d4
        \<longrightarrow> convert w docstring docformat source_file = Inr (d4, ws))"
    by (simp add: convert_def reraise_cases)
  show ?thesis by (intro conjI; (rule f1 f2 f3 f4 f5 conv))
qed

theorem convert_failure_witness:
  "run_rst interrupted (lower ''restructuredtext'') ''.. include:: x.txt'' None = Inl KeyboardInterrupt
   \<and> convert interrupted ''.. include:: x.txt'' ''restructuredtext'' None = Inl KeyboardInterrupt
   \<and> run_rst no_files (lower ''numpy'') ''Parameters\<newline>----------\<newline>  x\<newline> y'' None
       = Inr (''Parameters\<newline>----------\<newline>  x\<newline> y'', [])
   \<and> run_google (lower ''numpy'') ''Parameters\<newline>----------\<newline>  x\<newline> y''
       = Inr ''Parameters\<newline>----------\<newline>  x\<newline> y''
   \<and> run_numpy (lower ''numpy'') ''Parameters\<newline>----------\<newline>  x\<newline> y'' = Inl AssertionError
   \<and> convert no_files ''Parameters\<newline>----------\<newline>  x\<newline> y'' ''numpy'' None
       = Inl (RuntimeError ''Parameters\<newline>----------\<newline>  x\<newline> y'' None (lower ''numpy'') AssertionError)"
proof -
  let ?d = "''Parameters\<newline>----------\<newline>  x\<newline> y''"
  have a: "run_rst interrupted (lower ''restructuredtext'') ''.. include:: x.txt'' None = Inl KeyboardInterrupt"
    by code_simp
  have b: "run_rst no_files (lower ''numpy'') ?d None = Inr (?d, [])" by code_simp
  have c: "run_google (lower ''numpy'') ?d = Inr ?d" by code_simp
  have d: "run_numpy (lower ''numpy'') ?d = Inl AssertionError" by code_simp
  note t1 = convert_failure[of interrupted "''restructuredtext''" "''.. include:: x.txt''" None KeyboardInterrupt]
  note t2 = convert_failure[of no_files "''numpy''" ?d None AssertionError ?d "[]" ?d]
  from t1 a have e: "convert interrupted ''.. include:: x.txt'' ''restructuredtext'' None = Inl KeyboardInterrupt"
    by simp
  from t2 b c d have f: "convert no_files ?d ''numpy'' None
       = Inl (RuntimeError ?d None (lower ''numpy'') AssertionError)" by simp
  from a b c d e f show ?thesis by blast
qed

section \<open>What the conversion depends on\<close>














section \<open>Unreadable resources\<close>























lemma include_example_eval:
  "convert no_files ''.. include:: x.txt'' ''restructuredtext'' None
     = Inr ([CHR 0x0A, CHR 0x0A], [CannotInclude ''x.txt''])"
  by code_simp

lemma image_example_eval:
  "convert no_files ''![alt](pic.png)'' ''markdown'' (Some ''/src/mod.py'')
     = Inr (''![alt](pic.png)'', [])"
  by code_simp

section \<open>The tail of a NumPy section\<close>

definition tail_match :: "string \<Rightarrow> nat \<Rightarrow> bool" where
  \<comment> \<open>where \<open>\n(?![ \n])\<close> matches: at a newline that a blank or a newline does not follow\<close>
  "tail_match s p \<longleftrightarrow> p < length s \<and> s ! p = CHR 0x0A
     \<and> \<not> (Suc p < length s \<and> (s ! Suc p = CHR '' '' \<or> s ! Suc p = CHR 0x0A))"

lemma take1_drop: "take (Suc 0) (drop i s) = [c] \<longleftrightarrow> i < length s \<and> s ! i = c"
proof (cases "i < length s")
  case True
  then have "drop i s = s ! i # drop (Suc i) s" by (simp add: Cons_nth_drop_Suc)
  with True show ?thesis by simp
next
  case False
  then show ?thesis by simp
qed

lemma match_at_tail_re:
  "match_at tail_re s i =
     (if tail_match s i then Some \<lparr>m_string = s, m_start = i, m_end = Suc i, m_groups = []\<rparr> else None)"
  by (auto simp: match_at_def tail_re_def tail_match_def one_char_def in_class_def take1_drop
           split: option.splits)

lemma search_tail_none:
  "(\<And>q. i \<le> q \<Longrightarrow> \<not> tail_match s q) \<Longrightarrow> search_from tail_re s i = None"
  by (rule search_from_none) (simp add: match_at_tail_re)

lemma search_tail_first:
  assumes "tail_match s p" and "i \<le> p" and "\<And>q. i \<le> q \<Longrightarrow> q < p \<Longrightarrow> \<not> tail_match s q"
  shows "search_from tail_re s i = Some \<lparr>m_string = s, m_start = p, m_end = Suc p, m_groups = []\<rparr>"
proof (rule search_from_first[where p = p])
  show "match_at tail_re s p = Some \<lparr>m_string = s, m_start = p, m_end = Suc p, m_groups = []\<rparr>"
    using assms(1) by (simp add: match_at_tail_re)
  show "p \<le> length s" using assms(1) by (simp add: tail_match_def)
  show "i \<le> p" by fact
  show "\<And>q. i \<le> q \<Longrightarrow> q < p \<Longrightarrow> match_at tail_re s q = None"
    using assms(3) by (simp add: match_at_tail_re)
qed

lemma numpy_split_tail_at:
  assumes "startswith content '' ''" and "tail_match content p"
    and "\<And>q. q < p \<Longrightarrow> \<not> tail_match content q"
  shows "numpy_split_tail content = Inr (take p content, drop (Suc p) content)"
proof -
  have s: "search_from tail_re content 0
      = Some \<lparr>m_string = content, m_start = p, m_end = Suc p, m_groups = []\<rparr>"
    using assms(2,3) by (intro search_tail_first) simp_all
  have "re_split tail_re [] content (Some 1) = [take p content, drop (Suc p) content]"
    unfolding re_split_def
    by (subst split_from.simps) (simp add: s next_pos_def skipped_def split_from.simps[of _ _ _ _ "Some 0"])
  with assms(1) s show ?thesis by (simp add: numpy_split_tail_def re_search_def)
qed

lemma numpy_split_tail_none:
  assumes "\<not> startswith content '' '' \<or> (\<forall>q. \<not> tail_match content q)"
  shows "numpy_split_tail content = Inr (content, [])"
proof -
  have "\<not> startswith content '' '' \<or> re_search tail_re content = None"
    using assms search_tail_none[of 0 content] by (auto simp: re_search_def)
  then show ?thesis by (auto simp: numpy_split_tail_def)
qed

lemma ex_first: "P (p::nat) \<Longrightarrow> \<exists>p0. P p0 \<and> (\<forall>q<p0. \<not> P q)"
  by (metis exists_least_iff)

lemma numpy_split_tail_total:
  "\<exists>content1 tail. numpy_split_tail content = Inr (content1, tail)"
proof (cases "\<not> startswith content '' '' \<or> (\<forall>q. \<not> tail_match content q)")
  case True
  then show ?thesis using numpy_split_tail_none by blast
next
  case False
  then have sw: "startswith content '' ''" and "\<exists>q. tail_match content q" by auto
  then obtain p0 where "tail_match content p0" "\<forall>q<p0. \<not> tail_match content q"
    using ex_first[of "tail_match content"] by blast
  with sw have "numpy_split_tail content = Inr (take p0 content, drop (Suc p0) content)"
    by (intro numpy_split_tail_at) simp_all
  then show ?thesis by blast
qed

definition blank_or_indented :: "string \<Rightarrow> bool" where
  \<comment> \<open>a line that is blank or indented, by the tests of the module's own splitter:
      \<open>not line.strip()\<close> and \<open>line.startswith(" ")\<close>\<close>
  "blank_or_indented line \<longleftrightarrow> strip line = [] \<or> startswith line '' ''"

definition later_lines :: "string \<Rightarrow> string list" where
  \<comment> \<open>the lines of a content after the first\<close>
  "later_lines content = tl (split_char (CHR 0x0A) content)"

text \<open>
  C6, as stated: when no later line of the content is neither blank nor indented, no
  tail is split off. In the content below the first line is indented and every later
  line is blank or indented by the splitter's own tests (the second holds a tab only),
  yet the content is cut after its first line and the rest becomes the tail.
\<close>

theorem numpy_tail_counterexample:
  "startswith ('' a\<newline>'' @ [CHR 0x09] @ ''\<newline> b'') '' ''
   \<and> list_all blank_or_indented (later_lines ('' a\<newline>'' @ [CHR 0x09] @ ''\<newline> b''))
   \<and> numpy_split_tail ('' a\<newline>'' @ [CHR 0x09] @ ''\<newline> b'') = Inr ('' a'', [CHR 0x09] @ ''\<newline> b'')
   \<and> numpy (''Notes\<newline>-----\<newline> a\<newline>'' @ [CHR 0x09] @ ''\<newline> b'')
       = Inr (''###### Notes\<newline>a'' @ [CHR 0x09] @ ''\<newline> b'')"
  by code_simp

text \<open>
  C6, amended: for a (heading, content) pair of the section split, if the content starts
  with a blank and holds a newline that neither a blank nor another newline follows (a
  character other than these follows it, or the content ends there), the content is cut
  at the first such newline: the text before it is rendered as the section, the newline
  is dropped, and the text after it, the tail, is appended unmodified after the rendered
  section. Otherwise nothing is split off: the whole content is rendered and the tail is
  empty. The loop of \<open>numpy\<close> adds the rendered section and then the tail to its output;
  for a docstring with one section the output is the text before the heading, the
  rendered section and the tail.
\<close>

theorem numpy_tail_split:
  "(startswith content '' '' \<and> tail_match content p \<and> (\<forall>q<p. \<not> tail_match content q)
     \<longrightarrow> numpy_split_tail content = Inr (take p content, drop (Suc p) content))
   \<and> (\<not> startswith content '' '' \<or> (\<forall>q. \<not> tail_match content q)
     \<longrightarrow> numpy_split_tail content = Inr (content, []))
   \<and> (numpy_split_tail content = Inr (content1, tail)
     \<longrightarrow> numpy_loop contents (heading # content # rest)
         = (case numpy_render heading (dedent content1) of
              Inl e \<Rightarrow> Inl e
            | Inr rendered \<Rightarrow> numpy_loop (contents @ rendered @ tail) rest))
   \<and> (re_split numpy_re [''1''] docstring None = [pre, heading, content]
       \<and> numpy_split_tail content = Inr (content1, tail)
     \<longrightarrow> numpy docstring
         = (case numpy_render heading (dedent content1) of
              Inl e \<Rightarrow> Inl e
            | Inr rendered \<Rightarrow> Inr (pre @ rendered @ tail)))"
proof (intro conjI impI)
  assume "startswith content '' '' \<and> tail_match content p \<and> (\<forall>q<p. \<not> tail_match content q)"
  then show "numpy_split_tail content = Inr (take p content, drop (Suc p) content)"
    by (intro numpy_split_tail_at) simp_all
next
  assume "\<not> startswith content '' '' \<or> (\<forall>q. \<not> tail_match content q)"
  then show "numpy_split_tail content = Inr (content, [])" by (rule numpy_split_tail_none)
next
  assume "numpy_split_tail content = Inr (content1, tail)"
  then show "numpy_loop contents (heading # content # rest)
         = (case numpy_render heading (dedent content1) of
              Inl e \<Rightarrow> Inl e
            | Inr rendered \<Rightarrow> numpy_loop (contents @ rendered @ tail) rest)"
    by (simp add: numpy_section_def split: sum.splits)
next
  assume "re_split numpy_re [''1''] docstring None = [pre, heading, content]
       \<and> numpy_split_tail content = Inr (content1, tail)"
  then show "numpy docstring
         = (case numpy_render heading (dedent content1) of
              Inl e \<Rightarrow> Inl e
            | Inr rendered \<Rightarrow> Inr (pre @ rendered @ tail))"
    by (simp add: numpy_def numpy_section_def split: sum.splits)
qed

theorem numpy_tail_split_witness:
  "startswith ''  x\<newline>  y\<newline>z\<newline>w'' '' '' \<and> tail_match ''  x\<newline>  y\<newline>z\<newline>w'' 7
   \<and> numpy_split_tail ''  x\<newline>  y\<newline>z\<newline>w'' = Inr (''  x\<newline>  y'', ''z\<newline>w'')
   \<and> re_split numpy_re [''1''] ''Intro\<newline>Notes\<newline>-----\<newline>  x\<newline>  y\<newline>z\<newline>w'' None
       = [''Intro\<newline>'', ''Notes'', ''  x\<newline>  y\<newline>z\<newline>w'']
   \<and> numpy ''Intro\<newline>Notes\<newline>-----\<newline>  x\<newline>  y\<newline>z\<newline>w''
       = Inr ''Intro\<newline>###### Notes\<newline>x\<newline>yz\<newline>w''
   \<and> \<not> startswith ''x\<newline>y'' '' ''
   \<and> numpy_split_tail ''x\<newline>y'' = Inr (''x\<newline>y'', [])"
proof -
  let ?c = "''  x\<newline>  y\<newline>z\<newline>w''"
  let ?d = "''Intro\<newline>Notes\<newline>-----\<newline>  x\<newline>  y\<newline>z\<newline>w''"
  have h1: "startswith ?c '' ''" by simp
  have h2: "tail_match ?c 7" by (simp add: tail_match_def)
  have h3: "\<forall>q<7. \<not> tail_match ?c q"
  proof (intro allI impI)
    fix q :: nat assume "q < 7"
    then consider "q = 0" | "q = 1" | "q = 2" | "q = 3" | "q = 4" | "q = 5" | "q = 6" by linarith
    then show "\<not> tail_match ?c q"
      by cases (simp_all add: tail_match_def)
  qed
  have h4: "\<not> startswith ''x\<newline>y'' '' ''" by simp
  have h5: "re_split numpy_re [''1''] ?d None = [''Intro\<newline>'', ''Notes'', ?c]" by code_simp
  have r: "numpy_render ''Notes'' (dedent ''  x\<newline>  y'') = Inr ''###### Notes\<newline>x\<newline>y''" by code_simp
  note th = numpy_tail_split[of ?c 7 "''  x\<newline>  y''" "''z\<newline>w''" "[]" "''Notes''" "[]" ?d "''Intro\<newline>''"]
  note th2 = numpy_tail_split[of "''x\<newline>y''" 0]
  from th h1 h2 h3 have s: "numpy_split_tail ?c = Inr (''  x\<newline>  y'', ''z\<newline>w'')" by simp
  from th h5 s have "numpy ?d = (case numpy_render ''Notes'' (dedent ''  x\<newline>  y'') of
              Inl e \<Rightarrow> Inl e
            | Inr rendered \<Rightarrow> Inr (''Intro\<newline>'' @ rendered @ ''z\<newline>w''))" by blast
  with r have n: "numpy ?d = Inr ''Intro\<newline>###### Notes\<newline>x\<newline>yz\<newline>w''" by simp
  from th2 h4 have e: "numpy_split_tail ''x\<newline>y'' = Inr (''x\<newline>y'', [])" by blast
  from h1 h2 s h5 n h4 e show ?thesis by blast
qed

section \<open>Footnotes\<close>

lemma replace_references_eq:
  "replace_references m (n, F) =
     Inr (if fst (footnote_id (group_str m ''id'') n) \<in> F
          then ''[^'' @ fst (footnote_id (group_str m ''id'') n) @ '']''
          else group0 m,
          (snd (footnote_id (group_str m ''id'') n), F))"
  by (simp add: replace_references_def split: prod.splits)

lemma footnote_id_anonymous:
  "footnote_id ''#'' n = (''fn-'' @ str_nat n, Suc n)"
  "footnote_id ''*'' n = (''fn-'' @ str_nat n, Suc n)"
proof -
  have a: "contains ''*#'' ''#''" "contains ''*#'' ''*''" by code_simp+
  have b: "lstrip_chars ''#*'' (''fn-'' @ str_nat n) = ''fn-'' @ str_nat n"
    by (simp add: lstrip_chars_def)
  show "footnote_id ''#'' n = (''fn-'' @ str_nat n, Suc n)"
    using a b by (simp add: footnote_id_def)
  show "footnote_id ''*'' n = (''fn-'' @ str_nat n, Suc n)"
    using a b by (simp add: footnote_id_def)
qed

lemma footnote_id_named:
  "\<not> contains ''*#'' fn_id \<Longrightarrow> footnote_id fn_id n = (lstrip_chars ''#*'' fn_id, n)"
  by (simp add: footnote_id_def)

lemma footnote_passes_total:
  "\<exists>c1 n1 F n2.
      re_sub_st footnote_re register_footnote contents (1, {}) = Inr (c1, (n1, F))
    \<and> re_sub_st footnote_ref_re replace_references c1 (1, F) = Inr (rst_footnotes contents, (n2, F))"
proof -
  have "\<And>m st. \<exists>rep st'. register_footnote m st = Inr (rep, st')"
    by (simp add: register_footnote_def split: prod.splits)
  from sub_from_total[of register_footnote footnote_re contents 0 "(1, {})", OF this]
  obtain c1 n1 F where p1: "re_sub_st footnote_re register_footnote contents (1, {}) = Inr (c1, (n1, F))"
    by (auto simp: re_sub_st_def)
  have "\<And>m st. \<exists>rep st'. replace_references m st = Inr (rep, st')"
    by (simp add: replace_references_def split: prod.splits)
  from sub_from_total[of replace_references footnote_ref_re c1 0 "(1, F)", OF this]
  obtain out st2 where p2: "sub_from footnote_ref_re replace_references c1 0 (1, F) = Inr (out, st2)"
    by blast
  have "snd st2 = F"
  proof (rule sub_from_invariant[where P = "\<lambda>st. snd st = F", OF _ _ p2])
    show "snd (1::nat, F) = F" by simp
    show "\<And>m st rep st'. snd st = F \<Longrightarrow> match_at footnote_ref_re c1 (m_start m) = Some m
        \<Longrightarrow> replace_references m st = Inr (rep, st') \<Longrightarrow> snd st' = F"
      by (auto simp: replace_references_def split: prod.splits if_splits)
  qed
  then obtain n2 where st2: "st2 = (n2, F)" by (cases st2) auto
  from p1 p2 st2 have "rst_footnotes contents = out"
    by (simp add: rst_footnotes_def rst_footnotes_register_def rst_footnotes_replace_def re_sub_st_def)
  with p1 p2 st2 show ?thesis by (auto simp: re_sub_st_def)
qed

lemma footnotes_none_defined:
  "fst (rst_footnotes_replace contents {}) = contents"
proof -
  have "\<exists>st'. sub_from footnote_ref_re replace_references contents 0 (1, {}) = Inr (drop 0 contents, st')
      \<and> snd st' = {}"
  proof (rule sub_from_unchanged[where P = "\<lambda>st. snd st = {}"])
    show "snd (1::nat, {}::string set) = {}" by simp
    show "\<And>m st. snd st = {} \<Longrightarrow> match_at footnote_ref_re contents (m_start m) = Some m
        \<Longrightarrow> \<exists>st'. replace_references m st = Inr (group0 m, st') \<and> snd st' = {}"
      by (auto simp: replace_references_def split: prod.splits)
  qed
  then show ?thesis by (auto simp: rst_footnotes_replace_def re_sub_st_def)
qed

text \<open>
  C5. The definition pass runs from the counter 1 and no footnote, the reference pass
  from the counter 1 again and the footnotes the definition pass registered, which it
  does not change. In either pass an anonymous marker, \<open>#\<close> or \<open>*\<close>, takes the id
  \<open>fn-n\<close> of the pass's counter \<open>n\<close> and moves the counter on; any other marker leaves the
  counter alone. A reference is replaced by \<open>[^id]\<close> when its id is among the
  registered footnotes and by itself otherwise; with nothing registered the reference
  pass returns its text unchanged.
\<close>

theorem footnote_passes:
  "(\<exists>c1 n1 F n2.
      re_sub_st footnote_re register_footnote contents (1, {}) = Inr (c1, (n1, F))
    \<and> re_sub_st footnote_ref_re replace_references c1 (1, F) = Inr (rst_footnotes contents, (n2, F)))
   \<and> footnote_id ''#'' n = (''fn-'' @ str_nat n, Suc n)
   \<and> footnote_id ''*'' n = (''fn-'' @ str_nat n, Suc n)
   \<and> (\<not> contains ''*#'' fn_id \<longrightarrow> footnote_id fn_id n = (lstrip_chars ''#*'' fn_id, n))
   \<and> replace_references m (n, F') =
       Inr (if fst (footnote_id (group_str m ''id'') n) \<in> F'
            then ''[^'' @ fst (footnote_id (group_str m ''id'') n) @ '']''
            else group0 m,
            (snd (footnote_id (group_str m ''id'') n), F'))
   \<and> fst (rst_footnotes_replace contents' {}) = contents'"
  using footnote_passes_total[of contents] footnote_id_anonymous[of n] footnote_id_named[of fn_id n]
    replace_references_eq[of m n F'] footnotes_none_defined[of contents']
  by blast

theorem footnote_passes_witness:
  "\<not> contains ''*#'' ''#a'' \<and> footnote_id ''#a'' 3 = (''a'', 3)
   \<and> footnote_id ''#'' 1 = (''fn-1'', 2)
   \<and> rst_footnotes ''[#]_ [*]_ [#a]_ [2]_\<newline>.. [#] one\<newline>.. [#a] two\<newline>.. [*] three''
      = ''[^fn-1] [^fn-2] [^a] [2]_\<newline>[^fn-1]: one\<newline>[^a]: two\<newline>[^fn-2]: three''"
proof -
  have h: "\<not> contains ''*#'' ''#a''" by code_simp
  have l: "lstrip_chars ''#*'' ''#a'' = ''a''" by code_simp
  have s: "str_nat 1 = ''1''" by code_simp
  have r: "rst_footnotes ''[#]_ [*]_ [#a]_ [2]_\<newline>.. [#] one\<newline>.. [#a] two\<newline>.. [*] three''
      = ''[^fn-1] [^fn-2] [^a] [2]_\<newline>[^fn-1]: one\<newline>[^a]: two\<newline>[^fn-2]: three''" by code_simp
  note th = footnote_passes[of "[]" 3 "''#a''" "\<lparr>m_string = ''[2]_'', m_start = 0, m_end = 4, m_groups = [(''id'', ''2'')]\<rparr>" "{}" "[]"]
  note th1 = footnote_passes[of "[]" 1 "''#a''" "\<lparr>m_string = ''[2]_'', m_start = 0, m_end = 4, m_groups = [(''id'', ''2'')]\<rparr>" "{}" "[]"]
  from th h l have "footnote_id ''#a'' 3 = (''a'', 3)" by simp
  moreover from th1 s have "footnote_id ''#'' 1 = (''fn-1'', 2)" by simp
  ultimately show ?thesis using h r by blast
qed

end
